theory Spec2Isabelle
  imports Main
begin

section \<open>Cells and the string operations of the normalizer\<close>

text \<open>
  The script \<^verbatim>\<open>Lymely/Resources/Map/script.py\<close> is a straight-line pandas program.
  A cell of a data frame is a missing value (\<^verbatim>\<open>nan\<close> or \<^verbatim>\<open>None\<close>), a Python
  string, an integer, or a geometry (kept as its well-known text).
\<close>

datatype cell = NaN | NoneVal | Str string | Num int | Geom string

text \<open>\<^verbatim>\<open>str(n)\<close> for an integer: decimal digits, with a minus sign for a negative one.\<close>

definition digit_char :: "nat \<Rightarrow> char" where
  "digit_char d = char_of (48 + d)"

function str_of_nat :: "nat \<Rightarrow> string" where
  "str_of_nat n =
     (if n < 10 then [digit_char n] else str_of_nat (n div 10) @ [digit_char (n mod 10)])"
  by pat_completeness auto
termination
  by (relation "measure (\<lambda>n. n)") auto

declare str_of_nat.simps [simp del]

definition str_of_int :: "int \<Rightarrow> string" where
  "str_of_int i = (if i < 0 then CHR ''-'' # str_of_nat (nat (- i)) else str_of_nat (nat i))"

text \<open>
  \<^verbatim>\<open>Series.astype(str)\<close> applies \<^verbatim>\<open>str\<close> to every element, the missing ones included:
  \<^verbatim>\<open>str(nan)\<close> is \<^verbatim>\<open>'nan'\<close> and \<^verbatim>\<open>str(None)\<close> is \<^verbatim>\<open>'None'\<close>.
\<close>

fun astype_str :: "cell \<Rightarrow> cell" where
  "astype_str NaN = Str ''nan''"
| "astype_str NoneVal = Str ''None''"
| "astype_str (Str s) = Str s"
| "astype_str (Num i) = Str (str_of_int i)"
| "astype_str (Geom g) = Str g"

text \<open>
  \<^verbatim>\<open>str.zfill(width)\<close>, which \<^verbatim>\<open>Series.str.zfill\<close> maps over the strings of a column
  (pandas 1.5 and later). A string of \<open>width\<close> or more characters is returned as it is.
  A shorter one is padded on the left with \<^verbatim>\<open>'0'\<close>; when the character that followed
  the padding is a sign, the sign is moved to the front and a \<^verbatim>\<open>'0'\<close> takes its place.
  For the empty string there is no such character.
\<close>

definition zfill :: "nat \<Rightarrow> string \<Rightarrow> string" where
  "zfill width s =
     (if width \<le> length s then s
      else
        let fill = width - length s;
            u = replicate fill CHR ''0'' @ s
        in if fill < length u \<and> (u ! fill = CHR ''+'' \<or> u ! fill = CHR ''-'')
           then (u[0 := u ! fill])[fill := CHR ''0'']
           else u)"

text \<open>
  The \<^verbatim>\<open>.str\<close> methods on an object column: an element that is not a string gives a
  missing result.
\<close>

fun str_zfill :: "nat \<Rightarrow> cell \<Rightarrow> cell" where
  "str_zfill w (Str s) = Str (zfill w s)"
| "str_zfill w c = NaN"

definition startswith :: "string \<Rightarrow> string \<Rightarrow> bool" where
  "startswith p s = (take (length p) s = p)"

fun str_startswith :: "string \<Rightarrow> cell \<Rightarrow> bool option" where
  "str_startswith p (Str s) = Some (startswith p s)"
| "str_startswith p c = None"

fun isna :: "cell \<Rightarrow> bool" where
  "isna NaN = True"
| "isna NoneVal = True"
| "isna c = False"

section \<open>Data frames\<close>

text \<open>
  A data frame has named columns and rows; every row carries its index label. A file
  holds a table (what the parser makes of it: a header and the rows of cells) or content
  that does not parse.
\<close>

record frame =
  columns :: "string list"
  rows :: "(nat \<times> cell list) list"

datatype content = Malformed | Table "string list" "cell list list"

datatype error =
    FileNotFoundError string
  | ParseError string
  | KeyError string
  | TypeError
  | ValueError
  | IOError string

fun col_index :: "string \<Rightarrow> string list \<Rightarrow> nat option" where
  "col_index c [] = None"
| "col_index c (x # xs) = (if x = c then Some 0 else map_option Suc (col_index c xs))"

definition cell_at :: "nat \<Rightarrow> cell list \<Rightarrow> cell" where
  "cell_at i r = (if i < length r then r ! i else NaN)"

text \<open>\<^verbatim>\<open>frame[c]\<close>: the column, or \<^verbatim>\<open>KeyError\<close>.\<close>

definition getitem :: "string \<Rightarrow> frame \<Rightarrow> error + cell list" where
  "getitem c f =
     (case col_index c (columns f) of
        None \<Rightarrow> Inl (KeyError c)
      | Some i \<Rightarrow> Inr (map (\<lambda>r. cell_at i (snd r)) (rows f)))"

text \<open>\<^verbatim>\<open>frame[c] = values\<close>: replaces the column, or appends a new one.\<close>

definition setitem :: "string \<Rightarrow> cell list \<Rightarrow> frame \<Rightarrow> frame" where
  "setitem c vs f =
     (case col_index c (columns f) of
        None \<Rightarrow>
          f\<lparr>columns := columns f @ [c],
            rows := map (\<lambda>(r, v). (fst r, snd r @ [v])) (zip (rows f) vs)\<rparr>
      | Some i \<Rightarrow>
          f\<lparr>rows := map (\<lambda>(r, v). (fst r, (snd r)[i := v])) (zip (rows f) vs)\<rparr>)"

text \<open>\<^verbatim>\<open>frame[[c1, c2]]\<close>: the named columns, or \<^verbatim>\<open>KeyError\<close> for one that is absent.\<close>

definition select_columns :: "string list \<Rightarrow> frame \<Rightarrow> error + frame" where
  "select_columns cs f =
     (case filter (\<lambda>c. col_index c (columns f) = None) cs of
        [] \<Rightarrow>
          Inr \<lparr>columns = cs,
               rows = map (\<lambda>r. (fst r,
                        map (\<lambda>c. cell_at (the (col_index c (columns f))) (snd r)) cs))
                        (rows f)\<rparr>
      | c # _ \<Rightarrow> Inl (KeyError c))"

text \<open>\<^verbatim>\<open>frame[mask]\<close> keeps the rows whose mask entry is true, with their labels.\<close>

definition mask_select :: "frame \<Rightarrow> bool list \<Rightarrow> frame" where
  "mask_select f m = f\<lparr>rows := map fst (filter snd (zip (rows f) m))\<rparr>"

text \<open>\<^verbatim>\<open>frame.isna().any(axis=1)\<close>: per row, whether some cell of any column is missing.\<close>

definition isna_any :: "frame \<Rightarrow> bool list" where
  "isna_any f = map (\<lambda>r. list_ex isna (snd r)) (rows f)"

text \<open>
  A mask computed by a \<^verbatim>\<open>.str\<close> method has a missing entry for every element that is
  not a string. \<^verbatim>\<open>~mask\<close> raises \<^verbatim>\<open>TypeError\<close> on such an entry and indexing with
  such a mask raises \<^verbatim>\<open>ValueError\<close>.
\<close>

definition invert :: "bool option list \<Rightarrow> error + bool list" where
  "invert m =
     (if list_all (\<lambda>b. b \<noteq> None) m then Inr (map (\<lambda>b. \<not> the b) m) else Inl TypeError)"

definition as_mask :: "bool option list \<Rightarrow> error + bool list" where
  "as_mask m =
     (if list_all (\<lambda>b. b \<noteq> None) m then Inr (map the m) else Inl ValueError)"

section \<open>The left merge\<close>

text \<open>
  \<^verbatim>\<open>left.merge(right, on=key, how='left')\<close>. pandas first computes the pairs of row
  positions to take: for each left row in order, one pair for every right row with an
  equal key, in the order of the right frame, or one pair with no right row when there
  is none. Missing keys compare equal to each other.
\<close>

definition match_positions :: "cell \<Rightarrow> cell list \<Rightarrow> nat list" where
  "match_positions k rk = filter (\<lambda>j. rk ! j = k) [0..<length rk]"

definition join_group :: "cell list \<Rightarrow> cell list \<Rightarrow> nat \<Rightarrow> (nat \<times> nat option) list" where
  "join_group lk rk i =
     (case match_positions (lk ! i) rk of
        [] \<Rightarrow> [(i, None)]
      | j # js \<Rightarrow> map (\<lambda>j'. (i, Some j')) (j # js))"

definition left_join_indexers :: "cell list \<Rightarrow> cell list \<Rightarrow> (nat \<times> nat option) list" where
  "left_join_indexers lk rk = concat (map (join_group lk rk) [0..<length lk])"

definition drop_at :: "nat \<Rightarrow> 'a list \<Rightarrow> 'a list" where
  "drop_at i xs = take i xs @ drop (Suc i) xs"

text \<open>
  The columns of the result: those of the left frame, then those of the right frame
  without the key; a name on both sides, the key apart, gets the suffix \<^verbatim>\<open>_x\<close> on the
  left and \<^verbatim>\<open>_y\<close> on the right.
\<close>

definition merge_columns :: "string \<Rightarrow> string list \<Rightarrow> string list \<Rightarrow> string list" where
  "merge_columns on lc rc =
     map (\<lambda>c. if c \<noteq> on \<and> List.member rc c then c @ ''_x'' else c) lc @
     map (\<lambda>c. if List.member lc c then c @ ''_y'' else c) (remove1 on rc)"

definition merge_row ::
  "frame \<Rightarrow> frame \<Rightarrow> nat \<Rightarrow> nat \<times> nat option \<Rightarrow> cell list" where
  "merge_row left right kr p =
     snd (rows left ! fst p) @
     (case snd p of
        None \<Rightarrow> replicate (length (columns right) - 1) NaN
      | Some j \<Rightarrow> drop_at kr (snd (rows right ! j)))"

definition merge :: "frame \<Rightarrow> frame \<Rightarrow> string \<Rightarrow> error + frame" where
  "merge left right on =
     (case col_index on (columns left) of
        None \<Rightarrow> Inl (KeyError on)
      | Some kl \<Rightarrow>
         (case col_index on (columns right) of
            None \<Rightarrow> Inl (KeyError on)
          | Some kr \<Rightarrow>
              let lk = map (\<lambda>r. cell_at kl (snd r)) (rows left);
                  rk = map (\<lambda>r. cell_at kr (snd r)) (rows right);
                  out = map (merge_row left right kr) (left_join_indexers lk rk)
              in Inr \<lparr>columns = merge_columns on (columns left) (columns right),
                      rows = zip [0..<length out] out\<rparr>))"

section \<open>The script\<close>

text \<open>
  The state of a run: the files on disk and whether a path can be written, what was
  printed, and the variables of the script.
\<close>

datatype out = MainlandReport frame | NonMainlandReport frame | SavedMessage string

record state =
  files :: "string \<Rightarrow> content option"
  writable :: "string \<Rightarrow> bool"
  stdout :: "out list"
  counties :: frame
  csv_data :: frame
  merged_data :: frame
  missing_data :: frame
  missing_mainland :: frame
  missing_non_mainland :: frame

definition geojson_path :: string where
  "geojson_path = ''counties.geojson''"

definition csv_path :: string where
  "csv_path = ''lyme_disease_2022.csv''"

definition output_geojson_path :: string where
  "output_geojson_path = ''merged_county_data.geojson''"

text \<open>
  Reading a table: a path with no file and content that does not parse raise. A row with
  fewer cells than the header has missing values in the remaining columns; a row with
  more cells than the header does not parse. The rows are labelled from 0.
\<close>

definition pad :: "nat \<Rightarrow> cell list \<Rightarrow> cell list" where
  "pad n r = r @ replicate (n - length r) NaN"

definition read_table :: "(string \<Rightarrow> content option) \<Rightarrow> string \<Rightarrow> error + frame" where
  "read_table fs p =
     (case fs p of
        None \<Rightarrow> Inl (FileNotFoundError p)
      | Some Malformed \<Rightarrow> Inl (ParseError p)
      | Some (Table h b) \<Rightarrow>
          if list_all (\<lambda>r. length r \<le> length h) b
          then Inr \<lparr>columns = h, rows = zip [0..<length b] (map (pad (length h)) b)\<rparr>
          else Inl (ParseError p))"

text \<open>\<^verbatim>\<open>gpd.read_file(path)\<close>: one row per feature.\<close>

definition read_file :: "(string \<Rightarrow> content option) \<Rightarrow> string \<Rightarrow> error + frame" where
  "read_file fs p = read_table fs p"

text \<open>
  \<^verbatim>\<open>pd.read_csv(path, dtype={'GEOID': str})\<close>: the fields of the \<^verbatim>\<open>GEOID\<close> column, when
  there is one, are kept as text; an empty field is missing. In a table, a cell \<open>Num i\<close>
  of that column stands for the field whose text is \<^verbatim>\<open>str(i)\<close>.
\<close>

fun as_str_dtype :: "cell \<Rightarrow> cell" where
  "as_str_dtype NaN = NaN"
| "as_str_dtype NoneVal = NaN"
| "as_str_dtype (Str s) = Str s"
| "as_str_dtype (Num i) = Str (str_of_int i)"
| "as_str_dtype (Geom g) = Str g"

definition read_csv :: "(string \<Rightarrow> content option) \<Rightarrow> string \<Rightarrow> error + frame" where
  "read_csv fs p =
     (case read_table fs p of
        Inl e \<Rightarrow> Inl e
      | Inr f \<Rightarrow>
          (case getitem ''GEOID'' f of
             Inl e \<Rightarrow> Inr f
           | Inr col \<Rightarrow> Inr (setitem ''GEOID'' (map as_str_dtype col) f)))"

text \<open>
  \<^verbatim>\<open>frame.to_file(path, driver='GeoJSON')\<close> writes every column of every row (the
  unnamed row labels are not written), or raises when the path cannot be written.
\<close>

definition to_file :: "frame \<Rightarrow> string \<Rightarrow> state \<Rightarrow> error + state" where
  "to_file f p s =
     (if writable s p
      then Inr (s\<lparr>files := (files s)(p \<mapsto> Table (columns f) (map snd (rows f)))\<rparr>)
      else Inl (IOError p))"

text \<open>The statements of the script, by line.\<close>

definition line8 :: "state \<Rightarrow> error + state" where
  "line8 s =
     (case read_file (files s) geojson_path of
        Inl e \<Rightarrow> Inl e
      | Inr f \<Rightarrow> Inr (s\<lparr>counties := f\<rparr>))"

definition line9 :: "state \<Rightarrow> error + state" where
  "line9 s =
     (case getitem ''GEOID'' (counties s) of
        Inl e \<Rightarrow> Inl e
      | Inr col \<Rightarrow>
          Inr (s\<lparr>counties :=
                 setitem ''GEOID'' (map (\<lambda>c. str_zfill 5 (astype_str c)) col) (counties s)\<rparr>))"

definition line10 :: "state \<Rightarrow> error + state" where
  "line10 s =
     (case read_csv (files s) csv_path of
        Inl e \<Rightarrow> Inl e
      | Inr f \<Rightarrow> Inr (s\<lparr>csv_data := f\<rparr>))"

definition line11 :: "state \<Rightarrow> error + state" where
  "line11 s =
     (case getitem ''GEOID'' (csv_data s) of
        Inl e \<Rightarrow> Inl e
      | Inr col \<Rightarrow>
          Inr (s\<lparr>csv_data := setitem ''GEOID'' (map (str_zfill 5) col) (csv_data s)\<rparr>))"

definition line12 :: "state \<Rightarrow> error + state" where
  "line12 s =
     (case merge (counties s) (csv_data s) ''GEOID'' of
        Inl e \<Rightarrow> Inl e
      | Inr f \<Rightarrow> Inr (s\<lparr>merged_data := f\<rparr>))"

definition line13 :: "state \<Rightarrow> error + state" where
  "line13 s =
     Inr (s\<lparr>missing_data := mask_select (merged_data s) (isna_any (merged_data s))\<rparr>)"

definition line14 :: "state \<Rightarrow> error + state" where
  "line14 s =
     (case getitem ''GEOID'' (missing_data s) of
        Inl e \<Rightarrow> Inl e
      | Inr col \<Rightarrow>
          (case invert (map (str_startswith ''72'') col) of
             Inl e \<Rightarrow> Inl e
           | Inr m \<Rightarrow> Inr (s\<lparr>missing_mainland := mask_select (missing_data s) m\<rparr>)))"

definition line15 :: "state \<Rightarrow> error + state" where
  "line15 s =
     (case getitem ''GEOID'' (missing_data s) of
        Inl e \<Rightarrow> Inl e
      | Inr col \<Rightarrow>
          (case as_mask (map (str_startswith ''72'') col) of
             Inl e \<Rightarrow> Inl e
           | Inr m \<Rightarrow> Inr (s\<lparr>missing_non_mainland := mask_select (missing_data s) m\<rparr>)))"

definition line16 :: "state \<Rightarrow> error + state" where
  "line16 s =
     (case select_columns [''GEOID'', ''NAME''] (missing_mainland s) of
        Inl e \<Rightarrow> Inl e
      | Inr f \<Rightarrow> Inr (s\<lparr>stdout := stdout s @ [MainlandReport f]\<rparr>))"

definition line17 :: "state \<Rightarrow> error + state" where
  "line17 s =
     (case select_columns [''GEOID'', ''NAME''] (missing_non_mainland s) of
        Inl e \<Rightarrow> Inl e
      | Inr f \<Rightarrow> Inr (s\<lparr>stdout := stdout s @ [NonMainlandReport f]\<rparr>))"

definition line19 :: "state \<Rightarrow> error + state" where
  "line19 s = to_file (merged_data s) output_geojson_path s"

definition line20 :: "state \<Rightarrow> error + state" where
  "line20 s = Inr (s\<lparr>stdout := stdout s @ [SavedMessage output_geojson_path]\<rparr>)"

text \<open>
  Statements run in order. Nothing catches an exception: the first statement that raises
  ends the run, in the state it was raised in.
\<close>

fun exec :: "(state \<Rightarrow> error + state) list \<Rightarrow> state \<Rightarrow> error option \<times> state" where
  "exec [] s = (None, s)"
| "exec (l # ls) s = (case l s of Inl e \<Rightarrow> (Some e, s) | Inr s' \<Rightarrow> exec ls s')"

definition script :: "(state \<Rightarrow> error + state) list" where
  "script =
     [line8, line9, line10, line11, line12, line13, line14, line15, line16, line17,
      line19, line20]"

definition empty_frame :: frame where
  "empty_frame = \<lparr>columns = [], rows = []\<rparr>"

definition initial :: "(string \<Rightarrow> content option) \<Rightarrow> (string \<Rightarrow> bool) \<Rightarrow> state" where
  "initial fs wr =
     \<lparr>files = fs, writable = wr, stdout = [],
      counties = empty_frame, csv_data = empty_frame, merged_data = empty_frame,
      missing_data = empty_frame, missing_mainland = empty_frame,
      missing_non_mainland = empty_frame\<rparr>"

definition run :: "state \<Rightarrow> error option \<times> state" where
  "run s = exec script s"

text \<open>Every row of a well-formed frame has one cell per column.\<close>

definition wf_frame :: "frame \<Rightarrow> bool" where
  "wf_frame f = list_all (\<lambda>r. length (snd r) = length (columns f)) (rows f)"

section \<open>Example inputs\<close>

text \<open>A run on three counties and two rows of case counts, with every path writable.\<close>

definition all_writable :: "string \<Rightarrow> bool" where
  "all_writable p = True"

definition example_files :: "string \<Rightarrow> content option" where
  "example_files =
     [geojson_path \<mapsto> Table [''GEOID'', ''NAME'', ''geometry'']
        [[Str ''6001'', Str ''Alameda'', Geom ''P1''],
         [Str ''72001'', Str ''Adjuntas'', Geom ''P2''],
         [Num 1001, Str ''Autauga'', Geom ''P3'']],
      csv_path \<mapsto> Table [''GEOID'', ''cases'']
        [[Str ''06001'', Num 12], [Str ''99999'', Num 3]]]"

definition example_state :: state where
  "example_state = initial example_files all_writable"

text \<open>One county, and two rows of case counts whose identifiers normalize to its own.\<close>

definition duplicate_files :: "string \<Rightarrow> content option" where
  "duplicate_files =
     [geojson_path \<mapsto> Table [''GEOID'', ''NAME'', ''geometry'']
        [[Str ''06001'', Str ''Alameda'', Geom ''P1'']],
      csv_path \<mapsto> Table [''GEOID'', ''cases'']
        [[Str ''06001'', Num 12], [Str ''6001'', Num 7]]]"

definition duplicate_state :: state where
  "duplicate_state = initial duplicate_files all_writable"

text \<open>A county whose identifier has six characters.\<close>

definition long_files :: "string \<Rightarrow> content option" where
  "long_files =
     [geojson_path \<mapsto> Table [''GEOID'', ''NAME'', ''geometry'']
        [[Str ''123456'', Str ''Elsewhere'', Geom ''P1'']],
      csv_path \<mapsto> Table [''GEOID'', ''cases'']
        [[Str ''06001'', Num 12]]]"

definition long_state :: state where
  "long_state = initial long_files all_writable"

text \<open>
  A county whose identifier carries a sign, and a row of case counts whose identifier
  field is empty.
\<close>

definition signed_files :: "string \<Rightarrow> content option" where
  "signed_files =
     [geojson_path \<mapsto> Table [''GEOID'', ''NAME'', ''geometry'']
        [[Str ''-1'', Str ''Nowhere'', Geom ''P1'']],
      csv_path \<mapsto> Table [''GEOID'', ''cases'']
        [[NaN, Num 4]]]"

definition signed_state :: state where
  "signed_state = initial signed_files all_writable"

text \<open>
  A county whose identifier has three characters and starts with \<^verbatim>\<open>72\<close>, with no
  case counts.
\<close>

definition short72_files :: "string \<Rightarrow> content option" where
  "short72_files =
     [geojson_path \<mapsto> Table [''GEOID'', ''NAME'', ''geometry'']
        [[Str ''721'', Str ''Somewhere'', Geom ''P1'']],
      csv_path \<mapsto> Table [''GEOID'', ''cases'']
        [[Str ''06001'', Num 12]]]"

definition short72_state :: state where
  "short72_state = initial short72_files all_writable"

text \<open>The statements of the report, and those before and after it.\<close>

definition load_and_merge :: "(state \<Rightarrow> error + state) list" where
  "load_and_merge = [line8, line9, line10, line11, line12]"

definition report :: "(state \<Rightarrow> error + state) list" where
  "report = [line13, line14, line15, line16, line17]"

definition write_out :: "(state \<Rightarrow> error + state) list" where
  "write_out = [line19, line20]"

text \<open>A run in which the output path cannot be written.\<close>

definition none_writable :: "string \<Rightarrow> bool" where
  "none_writable p = False"

definition readonly_state :: state where
  "readonly_state = initial example_files none_writable"

text \<open>A run with no file on disk.\<close>

definition no_files :: "string \<Rightarrow> content option" where
  "no_files p = None"

definition no_files_state :: state where
  "no_files_state = initial no_files all_writable"

text \<open>
  One county, and two rows of case counts that carry the same identifier, which is not
  the county's.
\<close>

definition repeated_unmatched_files :: "string \<Rightarrow> content option" where
  "repeated_unmatched_files =
     [geojson_path \<mapsto> Table [''GEOID'', ''NAME'', ''geometry'']
        [[Str ''06001'', Str ''Alameda'', Geom ''P1'']],
      csv_path \<mapsto> Table [''GEOID'', ''cases'']
        [[Str ''99999'', Num 12], [Str ''99999'', Num 7]]]"

definition repeated_unmatched_state :: state where
  "repeated_unmatched_state = initial repeated_unmatched_files all_writable"

section \<open>Properties of the string operations\<close>

lemma zfill_length: "length (zfill w s) = max w (length s)"
  by (auto simp: zfill_def Let_def)

lemma zfill_long: "w \<le> length s \<Longrightarrow> zfill w s = s"
  by (simp add: zfill_def)

section \<open>Running the script\<close>

lemma exec_Cons_None:
  "exec (l # ls) s = (None, s') \<longleftrightarrow> (\<exists>t. l s = Inr t \<and> exec ls t = (None, s'))"
  by (auto split: sum.splits)

lemma exec_Nil_None: "exec [] s = (None, s') \<longleftrightarrow> s' = s"
  by auto

lemma line8_Inr:
  "line8 s = Inr t \<longleftrightarrow> (\<exists>f. read_file (files s) geojson_path = Inr f \<and> t = s\<lparr>counties := f\<rparr>)"
  by (auto simp: line8_def split: sum.splits)

lemma line9_Inr:
  "line9 s = Inr t \<longleftrightarrow>
     (\<exists>col. getitem ''GEOID'' (counties s) = Inr col \<and>
        t = s\<lparr>counties := setitem ''GEOID'' (map (\<lambda>c. str_zfill 5 (astype_str c)) col) (counties s)\<rparr>)"
  by (auto simp: line9_def split: sum.splits)

lemma line10_Inr:
  "line10 s = Inr t \<longleftrightarrow> (\<exists>f. read_csv (files s) csv_path = Inr f \<and> t = s\<lparr>csv_data := f\<rparr>)"
  by (auto simp: line10_def split: sum.splits)

lemma line11_Inr:
  "line11 s = Inr t \<longleftrightarrow>
     (\<exists>col. getitem ''GEOID'' (csv_data s) = Inr col \<and>
        t = s\<lparr>csv_data := setitem ''GEOID'' (map (str_zfill 5) col) (csv_data s)\<rparr>)"
  by (auto simp: line11_def split: sum.splits)

lemma line12_Inr:
  "line12 s = Inr t \<longleftrightarrow>
     (\<exists>m. merge (counties s) (csv_data s) ''GEOID'' = Inr m \<and> t = s\<lparr>merged_data := m\<rparr>)"
  by (auto simp: line12_def split: sum.splits)

lemma line13_Inr:
  "line13 s = Inr t \<longleftrightarrow>
     t = s\<lparr>missing_data := mask_select (merged_data s) (isna_any (merged_data s))\<rparr>"
  by (auto simp: line13_def)

lemma line14_Inr:
  "line14 s = Inr t \<longleftrightarrow>
     (\<exists>col m. getitem ''GEOID'' (missing_data s) = Inr col \<and>
        invert (map (str_startswith ''72'') col) = Inr m \<and>
        t = s\<lparr>missing_mainland := mask_select (missing_data s) m\<rparr>)"
  by (auto simp: line14_def split: sum.splits)

lemma line15_Inr:
  "line15 s = Inr t \<longleftrightarrow>
     (\<exists>col m. getitem ''GEOID'' (missing_data s) = Inr col \<and>
        as_mask (map (str_startswith ''72'') col) = Inr m \<and>
        t = s\<lparr>missing_non_mainland := mask_select (missing_data s) m\<rparr>)"
  by (auto simp: line15_def split: sum.splits)

lemma line16_Inr:
  "line16 s = Inr t \<longleftrightarrow>
     (\<exists>f. select_columns [''GEOID'', ''NAME''] (missing_mainland s) = Inr f \<and>
        t = s\<lparr>stdout := stdout s @ [MainlandReport f]\<rparr>)"
  by (auto simp: line16_def split: sum.splits)

lemma line17_Inr:
  "line17 s = Inr t \<longleftrightarrow>
     (\<exists>f. select_columns [''GEOID'', ''NAME''] (missing_non_mainland s) = Inr f \<and>
        t = s\<lparr>stdout := stdout s @ [NonMainlandReport f]\<rparr>)"
  by (auto simp: line17_def split: sum.splits)

lemma line19_Inr:
  "line19 s = Inr t \<longleftrightarrow>
     (writable s output_geojson_path \<and>
      t = s\<lparr>files := (files s)(output_geojson_path \<mapsto>
               Table (columns (merged_data s)) (map snd (rows (merged_data s))))\<rparr>)"
  by (auto simp: line19_def to_file_def)

lemma line20_Inr:
  "line20 s = Inr t \<longleftrightarrow> t = s\<lparr>stdout := stdout s @ [SavedMessage output_geojson_path]\<rparr>"
  by (auto simp: line20_def)

lemmas line_Inr = line8_Inr line9_Inr line10_Inr line11_Inr line12_Inr line13_Inr line14_Inr
  line15_Inr line16_Inr line17_Inr line19_Inr line20_Inr

lemma run_ok_iff:
  "run s = (None, s') \<longleftrightarrow>
     (\<exists>c0 lcol a0 rcol m mcol mm mn r1 r2.
        read_file (files s) geojson_path = Inr c0 \<and>
        getitem ''GEOID'' c0 = Inr lcol \<and>
        read_csv (files s) csv_path = Inr a0 \<and>
        getitem ''GEOID'' a0 = Inr rcol \<and>
        merge (setitem ''GEOID'' (map (\<lambda>c. str_zfill 5 (astype_str c)) lcol) c0)
              (setitem ''GEOID'' (map (str_zfill 5) rcol) a0) ''GEOID'' = Inr m \<and>
        getitem ''GEOID'' (mask_select m (isna_any m)) = Inr mcol \<and>
        invert (map (str_startswith ''72'') mcol) = Inr mm \<and>
        as_mask (map (str_startswith ''72'') mcol) = Inr mn \<and>
        select_columns [''GEOID'', ''NAME''] (mask_select (mask_select m (isna_any m)) mm) = Inr r1 \<and>
        select_columns [''GEOID'', ''NAME''] (mask_select (mask_select m (isna_any m)) mn) = Inr r2 \<and>
        writable s output_geojson_path \<and>
        s' = s\<lparr>counties := setitem ''GEOID'' (map (\<lambda>c. str_zfill 5 (astype_str c)) lcol) c0,
               csv_data := setitem ''GEOID'' (map (str_zfill 5) rcol) a0,
               merged_data := m,
               missing_data := mask_select m (isna_any m),
               missing_mainland := mask_select (mask_select m (isna_any m)) mm,
               missing_non_mainland := mask_select (mask_select m (isna_any m)) mn,
               stdout := stdout s @ [MainlandReport r1, NonMainlandReport r2,
                                     SavedMessage output_geojson_path],
               files := (files s)(output_geojson_path \<mapsto> Table (columns m) (map snd (rows m)))\<rparr>)"
  unfolding run_def script_def exec_Cons_None exec_Nil_None line_Inr
  by (auto)




lemma match_positions_set: "set (match_positions k rk) = {j. j < length rk \<and> rk ! j = k}"
  by (auto simp: match_positions_def)

lemma join_group_fst: "p \<in> set (join_group lk rk i) \<Longrightarrow> fst p = i"
  by (auto simp: join_group_def split: list.splits)

lemma join_group_nonempty: "join_group lk rk i \<noteq> []"
  by (auto simp: join_group_def split: list.splits)

lemma join_group_set:
  "set (join_group lk rk i) =
     (if match_positions (lk ! i) rk = [] then {(i, None)}
      else (\<lambda>j. (i, Some j)) ` set (match_positions (lk ! i) rk))"
  by (cases "match_positions (lk ! i) rk") (simp_all add: join_group_def)

lemma join_group_Some:
  "(i', Some j) \<in> set (join_group lk rk i) \<longleftrightarrow> i' = i \<and> j < length rk \<and> rk ! j = lk ! i"
proof -
  have "match_positions (lk ! i) rk = [] \<longleftrightarrow> (\<forall>j<length rk. rk ! j \<noteq> lk ! i)"
    by (auto simp: match_positions_def filter_empty_conv)
  then show ?thesis
    by (auto simp: join_group_set match_positions_set)
qed

lemma join_group_unmatched:
  "lk ! i \<notin> set rk \<Longrightarrow> join_group lk rk i = [(i, None)]"
proof -
  assume "lk ! i \<notin> set rk"
  then have "\<forall>j<length rk. rk ! j \<noteq> lk ! i"
    using nth_mem by metis
  then have "match_positions (lk ! i) rk = []"
    by (simp add: match_positions_def filter_empty_conv)
  then show ?thesis by (simp add: join_group_def)
qed

lemma indexers_Some:
  "(i, Some j) \<in> set (left_join_indexers lk rk) \<longleftrightarrow>
     i < length lk \<and> j < length rk \<and> rk ! j = lk ! i"
  by (auto simp: left_join_indexers_def join_group_Some)

lemma indexers_fst_bound:
  "p \<in> set (left_join_indexers lk rk) \<Longrightarrow> fst p < length lk"
  by (auto simp: left_join_indexers_def dest: join_group_fst)

lemma join_group_fst_map:
  "map fst (join_group lk rk i) = replicate (length (join_group lk rk i)) i"
  by (cases "match_positions (lk ! i) rk") (simp_all add: join_group_def comp_def map_replicate_const)

lemma concat_groups_sorted:
  "sorted is \<Longrightarrow> sorted (map fst (concat (map (join_group lk rk) is)))"
proof (induction "is")
  case Nil
  then show ?case by simp
next
  case (Cons i "is")
  have "\<forall>x\<in>set (join_group lk rk i). \<forall>y\<in>set (concat (map (join_group lk rk) is)). fst x \<le> fst y"
    using Cons.prems by (auto dest!: join_group_fst)
  moreover have "sorted (map fst (join_group lk rk i))"
    by (simp add: join_group_fst_map)
  ultimately show ?case using Cons
    by (auto simp: sorted_append)
qed

lemma indexers_sorted: "sorted (map fst (left_join_indexers lk rk))"
  unfolding left_join_indexers_def by (rule concat_groups_sorted) simp

lemma concat_groups_filter:
  "distinct is \<Longrightarrow> i \<in> set is \<Longrightarrow>
     filter (\<lambda>p. fst p = i) (concat (map (join_group lk rk) is)) = join_group lk rk i"
proof (induction "is")
  case Nil
  then show ?case by simp
next
  case (Cons a "is")
  have other: "\<And>b. b \<noteq> i \<Longrightarrow> filter (\<lambda>p. fst p = i) (join_group lk rk b) = []"
    by (auto simp: filter_empty_conv dest: join_group_fst)
  have self: "filter (\<lambda>p. fst p = i) (join_group lk rk i) = join_group lk rk i"
    by (auto simp: filter_id_conv dest: join_group_fst)
  have none: "\<And>js. i \<notin> set js \<Longrightarrow> filter (\<lambda>p. fst p = i) (concat (map (join_group lk rk) js)) = []"
    by (auto simp: filter_empty_conv dest: join_group_fst)
  show ?case
  proof (cases "a = i")
    case True
    with Cons.prems have "i \<notin> set is" by simp
    with True show ?thesis by (simp add: self none)
  next
    case False
    with Cons show ?thesis by (simp add: other)
  qed
qed

lemma indexers_filter:
  "i < length lk \<Longrightarrow>
     filter (\<lambda>p. fst p = i) (left_join_indexers lk rk) = join_group lk rk i"
  unfolding left_join_indexers_def by (rule concat_groups_filter) simp_all

lemma concat_groups_single:
  "(\<And>i. i \<in> set is \<Longrightarrow> length (match_positions (lk ! i) rk) \<le> 1) \<Longrightarrow>
     map fst (concat (map (join_group lk rk) is)) = is"
proof (induction "is")
  case Nil
  then show ?case by simp
next
  case (Cons a "is")
  have "length (match_positions (lk ! a) rk) \<le> 1" using Cons.prems by simp
  then have "map fst (join_group lk rk a) = [a]"
    by (cases "match_positions (lk ! a) rk") (auto simp: join_group_def)
  with Cons show ?case by simp
qed

lemma concat_groups_length:
  "length is \<le> length (concat (map (join_group lk rk) is))"
proof (induction "is")
  case Nil
  then show ?case by simp
next
  case (Cons a "is")
  have "1 \<le> length (join_group lk rk a)"
    using join_group_nonempty [of lk rk a] by (cases "join_group lk rk a") auto
  with Cons show ?case by simp
qed

lemma match_positions_distinct:
  assumes "distinct (filter (\<lambda>c. c \<noteq> NaN) rk)" and "k \<noteq> NaN"
  shows "length (match_positions k rk) \<le> 1"
  using assms
proof (induction rk rule: rev_induct)
  case Nil
  then show ?case by (simp add: match_positions_def)
next
  case (snoc x xs)
  have eq: "match_positions k (xs @ [x]) =
              match_positions k xs @ (if x = k then [length xs] else [])"
    by (auto simp: match_positions_def nth_append intro: filter_cong)
  show ?case
  proof (cases "x = k")
    case True
    with snoc.prems have "k \<notin> set xs" by auto
    then have "match_positions k xs = []"
      by (auto simp: match_positions_def filter_empty_conv)
    with eq True show ?thesis by simp
  next
    case False
    with snoc eq show ?thesis by (auto split: if_splits)
  qed
qed

lemma col_index_Some:
  "col_index c cs = Some k \<Longrightarrow> k < length cs \<and> cs ! k = c \<and> (\<forall>j<k. cs ! j \<noteq> c)"
proof (induction cs arbitrary: k)
  case Nil
  then show ?case by simp
next
  case (Cons x xs)
  show ?case
  proof (cases "x = c")
    case True
    with Cons.prems show ?thesis by simp
  next
    case False
    with Cons.prems obtain k' where k': "col_index c xs = Some k'" "k = Suc k'"
      by auto
    from Cons.IH [OF k'(1)] False k'(2) show ?thesis
      by (auto simp: nth_Cons split: nat.splits)
  qed
qed

lemma col_index_None: "col_index c cs = None \<longleftrightarrow> c \<notin> set cs"
  by (induction cs) auto

lemma col_index_map:
  "(\<And>x. x \<in> set cs \<Longrightarrow> (f x = c) = (x = c)) \<Longrightarrow> col_index c (map f cs) = col_index c cs"
  by (induction cs) auto

lemma col_index_append_Some:
  "col_index c xs = Some k \<Longrightarrow> col_index c (xs @ ys) = Some k"
  by (induction xs arbitrary: k) auto

lemma suffix_x_neq: "c @ ''_x'' \<noteq> ''GEOID''"
proof
  assume "c @ ''_x'' = ''GEOID''"
  then have "last (c @ ''_x'') = last ''GEOID''" by simp
  then show False by simp
qed

lemma col_index_merge_columns:
  assumes "col_index ''GEOID'' lc = Some kl"
  shows "col_index ''GEOID'' (merge_columns ''GEOID'' lc rc) = Some kl"
proof -
  have "col_index ''GEOID'' (map (\<lambda>c. if c \<noteq> ''GEOID'' \<and> List.member rc c then c @ ''_x'' else c) lc)
          = col_index ''GEOID'' lc"
    by (rule col_index_map) (auto simp: suffix_x_neq)
  with assms show ?thesis
    by (simp add: merge_columns_def col_index_append_Some)
qed

lemma merge_Inr:
  "merge l r on = Inr m \<longleftrightarrow>
     (\<exists>kl kr. col_index on (columns l) = Some kl \<and> col_index on (columns r) = Some kr \<and>
        m = \<lparr>columns = merge_columns on (columns l) (columns r),
             rows = zip [0..<length (left_join_indexers (map (\<lambda>r. cell_at kl (snd r)) (rows l))
                                       (map (\<lambda>r. cell_at kr (snd r)) (rows r)))]
                        (map (merge_row l r kr)
                           (left_join_indexers (map (\<lambda>r. cell_at kl (snd r)) (rows l))
                                       (map (\<lambda>r. cell_at kr (snd r)) (rows r))))\<rparr>)"
  by (auto simp: merge_def Let_def split: option.splits)

lemma getitem_Inr:
  "getitem c f = Inr col \<longleftrightarrow>
     (\<exists>k. col_index c (columns f) = Some k \<and> col = map (\<lambda>r. cell_at k (snd r)) (rows f))"
  by (auto simp: getitem_def split: option.splits)

lemma merge_rows:
  assumes "merge l r on = Inr m" "getitem on l = Inr lk" "getitem on r = Inr rk"
  shows "\<exists>kr. col_index on (columns r) = Some kr \<and>
           map snd (rows m) = map (merge_row l r kr) (left_join_indexers lk rk) \<and>
           map fst (rows m) = [0..<length (left_join_indexers lk rk)]"
  using assms by (auto simp: merge_Inr getitem_Inr)

lemma cell_at_pad: "cell_at k (pad n r) = cell_at k r"
  by (auto simp: cell_at_def pad_def nth_append)

lemma read_table_Inr:
  "read_table fs p = Inr f \<longleftrightarrow>
     (\<exists>h b. fs p = Some (Table h b) \<and> list_all (\<lambda>r. length r \<le> length h) b \<and>
        f = \<lparr>columns = h, rows = zip [0..<length b] (map (pad (length h)) b)\<rparr>)"
  by (auto simp: read_table_def split: option.splits content.splits)

lemma read_table_wf: "read_table fs p = Inr f \<Longrightarrow> wf_frame f"
  by (auto simp: read_table_Inr wf_frame_def list_all_iff pad_def dest!: set_zip_rightD)

lemma setitem_existing:
  assumes "col_index c (columns f) = Some k" "length vs = length (rows f)"
  shows "columns (setitem c vs f) = columns f"
    and "rows (setitem c vs f) = map (\<lambda>(r, v). (fst r, (snd r)[k := v])) (zip (rows f) vs)"
    and "length (rows (setitem c vs f)) = length (rows f)"
  using assms by (simp_all add: setitem_def)

lemma setitem_wf:
  assumes "col_index c (columns f) = Some k" "length vs = length (rows f)" "wf_frame f"
  shows "wf_frame (setitem c vs f)"
  using assms by (auto simp: setitem_def wf_frame_def list_all_iff dest!: set_zip_leftD)

lemma getitem_setitem:
  assumes "col_index c (columns f) = Some k" "length vs = length (rows f)" "wf_frame f"
  shows "getitem c (setitem c vs f) = Inr vs"
proof -
  have k: "k < length (columns f)" using col_index_Some [OF assms(1)] by simp
  have "map (\<lambda>r. cell_at k (snd r)) (map (\<lambda>(r, v). (fst r, (snd r)[k := v])) (zip (rows f) vs)) = vs"
  proof (rule nth_equalityI)
    show "length (map (\<lambda>r. cell_at k (snd r)) (map (\<lambda>(r, v). (fst r, (snd r)[k := v])) (zip (rows f) vs))) = length vs"
      using assms(2) by simp
  next
    fix i assume "i < length (map (\<lambda>r. cell_at k (snd r)) (map (\<lambda>(r, v). (fst r, (snd r)[k := v])) (zip (rows f) vs)))"
    then have i: "i < length (rows f)" "i < length vs" using assms(2) by simp_all
    then have "length (snd (rows f ! i)) = length (columns f)"
      using assms(3) by (simp add: wf_frame_def list_all_length)
    with i k show "map (\<lambda>r. cell_at k (snd r)) (map (\<lambda>(r, v). (fst r, (snd r)[k := v])) (zip (rows f) vs)) ! i = vs ! i"
      by (simp add: cell_at_def)
  qed
  with assms show ?thesis
    by (simp add: getitem_def setitem_def)
qed

lemma run_ok_merge:
  "run s = (None, s') \<Longrightarrow> merge (counties s') (csv_data s') ''GEOID'' = Inr (merged_data s')"
  by (auto simp: run_ok_iff)

lemma indexers_fst_set: "set (map fst (left_join_indexers lk rk)) = {0..<length lk}"
proof (intro set_eqI iffI)
  fix i assume "i \<in> set (map fst (left_join_indexers lk rk))"
  then show "i \<in> {0..<length lk}" by (auto dest: indexers_fst_bound)
next
  fix i assume "i \<in> {0..<length lk}"
  then have i: "i < length lk" by simp
  from join_group_nonempty [of lk rk i] obtain p where "p \<in> set (join_group lk rk i)"
    by (cases "join_group lk rk i") auto
  with indexers_filter [OF i, of rk] have "p \<in> set (filter (\<lambda>p. fst p = i) (left_join_indexers lk rk))"
    by simp
  then show "i \<in> set (map fst (left_join_indexers lk rk))" by force
qed

lemma merged_sources:
  assumes "merge l r on = Inr m"
  shows "\<exists>lk rk kr. getitem on l = Inr lk \<and> getitem on r = Inr rk \<and>
           col_index on (columns r) = Some kr \<and>
           map snd (rows m) = map (merge_row l r kr) (left_join_indexers lk rk) \<and>
           map fst (rows m) = [0..<length (left_join_indexers lk rk)]"
  using assms by (auto simp: merge_Inr getitem_Inr)

section \<open>Order of the merged records\<close>

text \<open>
  Claim C9. The order of the records in the merged output follows the order of the
  boundary collection: there is a non-decreasing map from the positions of the output to
  the positions of the boundary frame, onto all of them, such that each output row is
  its boundary row followed by the attribute columns. The output rows are labelled
  0, 1, 2, ... in that order.
\<close>

theorem merged_order_follows_boundaries:
  assumes "run s = (None, s')"
  shows "\<exists>src. length src = length (rows (merged_data s')) \<and>
           sorted src \<and>
           set src = {0..<length (rows (counties s'))} \<and>
           map fst (rows (merged_data s')) = [0..<length src] \<and>
           (\<forall>n<length src. \<exists>ext.
              snd (rows (merged_data s') ! n) = snd (rows (counties s') ! (src ! n)) @ ext)"
proof -
  from merged_sources [OF run_ok_merge [OF assms]] obtain lk rk kr where
    lk: "getitem ''GEOID'' (counties s') = Inr lk" and
    rows: "map snd (rows (merged_data s')) =
             map (merge_row (counties s') (csv_data s') kr) (left_join_indexers lk rk)" and
    labels: "map fst (rows (merged_data s')) = [0..<length (left_join_indexers lk rk)]"
    by blast
  let ?ix = "left_join_indexers lk rk"
  let ?src = "map fst ?ix"
  have len: "length ?src = length (rows (merged_data s'))"
    using arg_cong [OF rows, of length] by simp
  have lklen: "length lk = length (rows (counties s'))"
    using lk by (auto simp: getitem_Inr)
  have ext: "\<forall>n<length ?src. \<exists>ext.
      snd (rows (merged_data s') ! n) = snd (rows (counties s') ! (?src ! n)) @ ext"
  proof (intro allI impI)
    fix n assume n: "n < length ?src"
    then have "snd (rows (merged_data s') ! n) = map snd (rows (merged_data s')) ! n"
      using len by simp
    also have "\<dots> = merge_row (counties s') (csv_data s') kr (?ix ! n)"
      using n by (simp add: rows)
    finally show "\<exists>ext. snd (rows (merged_data s') ! n) =
        snd (rows (counties s') ! (?src ! n)) @ ext"
      using n by (simp add: merge_row_def)
  qed
  have "length ?src = length (rows (merged_data s')) \<and> sorted ?src \<and>
        set ?src = {0..<length (rows (counties s'))} \<and>
        map fst (rows (merged_data s')) = [0..<length ?src] \<and>
        (\<forall>n<length ?src. \<exists>ext.
           snd (rows (merged_data s') ! n) = snd (rows (counties s') ! (?src ! n)) @ ext)"
    using len indexers_sorted [of lk rk] indexers_fst_set [of lk rk] lklen labels ext
    by simp
  then show ?thesis by blast
qed

theorem merged_order_follows_boundaries_witness:
  "run example_state = (None, snd (run example_state)) \<and>
   (\<exists>src. length src = length (rows (merged_data (snd (run example_state)))) \<and>
           sorted src \<and>
           set src = {0..<length (rows (counties (snd (run example_state))))} \<and>
           map fst (rows (merged_data (snd (run example_state)))) = [0..<length src] \<and>
           (\<forall>n<length src. \<exists>ext.
              snd (rows (merged_data (snd (run example_state))) ! n) =
              snd (rows (counties (snd (run example_state))) ! (src ! n)) @ ext))"
proof -
  have "fst (run example_state) = None" by code_simp
  then have ok: "run example_state = (None, snd (run example_state))"
    by (simp add: prod_eq_iff)
  from merged_order_follows_boundaries [OF ok] ok show ?thesis by blast
qed

section \<open>The frames of a completed run\<close>

lemma normalized_not_missing: "\<exists>t. str_zfill w (astype_str c) = Str (zfill w t) \<and> astype_str c = Str t"
  by (cases c) simp_all

lemma map_cell_at_pad:
  "map (\<lambda>r. cell_at k (snd r)) (zip [0..<length b] (map (pad n) b)) = map (cell_at k) b"
  by (rule nth_equalityI) (simp_all add: cell_at_pad)

lemma run_ok_counties:
  assumes "run s = (None, s')"
  shows "\<exists>h b kl. files s geojson_path = Some (Table h b) \<and>
           col_index ''GEOID'' h = Some kl \<and>
           columns (counties s') = h \<and>
           length (rows (counties s')) = length b \<and>
           wf_frame (counties s') \<and>
           getitem ''GEOID'' (counties s') =
             Inr (map (\<lambda>r. str_zfill 5 (astype_str (cell_at kl r))) b)"
proof -
  from assms obtain c0 lcol where
    c0: "read_file (files s) geojson_path = Inr c0" and
    lcol: "getitem ''GEOID'' c0 = Inr lcol" and
    c: "counties s' = setitem ''GEOID'' (map (\<lambda>c. str_zfill 5 (astype_str c)) lcol) c0"
    by (auto simp: run_ok_iff)
  from c0 obtain h b where
    hb: "files s geojson_path = Some (Table h b)" and
    c0eq: "c0 = \<lparr>columns = h, rows = zip [0..<length b] (map (pad (length h)) b)\<rparr>"
    by (auto simp: read_file_def read_table_Inr)
  have wf0: "wf_frame c0" using c0 by (simp add: read_file_def read_table_wf)
  from lcol obtain kl where
    kl: "col_index ''GEOID'' (columns c0) = Some kl" and
    lc: "lcol = map (\<lambda>r. cell_at kl (snd r)) (rows c0)"
    by (auto simp: getitem_Inr)
  have lc': "lcol = map (cell_at kl) b"
    using lc by (simp add: c0eq map_cell_at_pad)
  let ?vs = "map (\<lambda>c. str_zfill 5 (astype_str c)) lcol"
  have len: "length ?vs = length (rows c0)" using lc by simp
  have "getitem ''GEOID'' (counties s') = Inr ?vs"
    unfolding c by (rule getitem_setitem [OF kl len wf0])
  moreover have "?vs = map (\<lambda>r. str_zfill 5 (astype_str (cell_at kl r))) b"
    by (simp add: lc')
  moreover have "wf_frame (counties s')"
    unfolding c by (rule setitem_wf [OF kl len wf0])
  moreover have "columns (counties s') = h"
    unfolding c using setitem_existing(1) [OF kl len] by (simp add: c0eq)
  moreover have "length (rows (counties s')) = length b"
    unfolding c using setitem_existing(3) [OF kl len] by (simp add: c0eq)
  moreover have "col_index ''GEOID'' h = Some kl" using kl by (simp add: c0eq)
  ultimately show ?thesis using hb by simp
qed

lemma run_ok_csv:
  assumes "run s = (None, s')"
  shows "\<exists>h b kr. files s csv_path = Some (Table h b) \<and>
           col_index ''GEOID'' h = Some kr \<and>
           columns (csv_data s') = h \<and>
           length (rows (csv_data s')) = length b \<and>
           wf_frame (csv_data s') \<and>
           getitem ''GEOID'' (csv_data s') =
             Inr (map (\<lambda>r. str_zfill 5 (as_str_dtype (cell_at kr r))) b)"
proof -
  from assms obtain a0 rcol where
    a0: "read_csv (files s) csv_path = Inr a0" and
    rcol: "getitem ''GEOID'' a0 = Inr rcol" and
    c: "csv_data s' = setitem ''GEOID'' (map (str_zfill 5) rcol) a0"
    by (auto simp: run_ok_iff)
  from rcol obtain kr where
    kr: "col_index ''GEOID'' (columns a0) = Some kr" and
    rc: "rcol = map (\<lambda>r. cell_at kr (snd r)) (rows a0)"
    by (auto simp: getitem_Inr)
  from a0 obtain f where f: "read_table (files s) csv_path = Inr f"
    by (auto simp: read_csv_def split: sum.splits)
  from f obtain h b where
    hb: "files s csv_path = Some (Table h b)" and
    feq: "f = \<lparr>columns = h, rows = zip [0..<length b] (map (pad (length h)) b)\<rparr>"
    by (auto simp: read_table_Inr)
  have wff: "wf_frame f" using f by (rule read_table_wf)
  have a0c: "a0 = (case getitem ''GEOID'' f of
                     Inl e \<Rightarrow> f
                   | Inr col \<Rightarrow> setitem ''GEOID'' (map as_str_dtype col) f)"
    using a0 f by (auto simp: read_csv_def split: sum.splits)
  have cols: "columns a0 = columns f"
    unfolding a0c by (auto simp: setitem_def getitem_Inr split: sum.splits)
  then have krf: "col_index ''GEOID'' (columns f) = Some kr" using kr by simp
  then have gf: "getitem ''GEOID'' f = Inr (map (\<lambda>r. cell_at kr (snd r)) (rows f))"
    by (simp add: getitem_def)
  have a0eq: "a0 = setitem ''GEOID'' (map as_str_dtype (map (\<lambda>r. cell_at kr (snd r)) (rows f))) f"
    unfolding a0c gf by simp
  let ?v0 = "map as_str_dtype (map (\<lambda>r. cell_at kr (snd r)) (rows f))"
  have len0: "length ?v0 = length (rows f)" by simp
  have g0: "getitem ''GEOID'' a0 = Inr ?v0"
    unfolding a0eq by (rule getitem_setitem [OF krf len0 wff])
  have wf0: "wf_frame a0" unfolding a0eq by (rule setitem_wf [OF krf len0 wff])
  have rows0: "length (rows a0) = length (rows f)"
    unfolding a0eq by (rule setitem_existing(3) [OF krf len0])
  have rcol': "rcol = ?v0" using g0 rcol by simp
  let ?vs = "map (str_zfill 5) rcol"
  have len: "length ?vs = length (rows a0)" using rc by simp
  have "getitem ''GEOID'' (csv_data s') = Inr ?vs"
    unfolding c by (rule getitem_setitem [OF kr len wf0])
  moreover have "?vs = map (\<lambda>r. str_zfill 5 (as_str_dtype (cell_at kr r))) b"
    by (simp add: rcol' feq map_cell_at_pad)
  moreover have "wf_frame (csv_data s')"
    unfolding c by (rule setitem_wf [OF kr len wf0])
  moreover have "columns (csv_data s') = h"
    unfolding c using setitem_existing(1) [OF kr len] cols by (simp add: feq)
  moreover have "length (rows (csv_data s')) = length b"
    unfolding c using setitem_existing(3) [OF kr len] rows0 by (simp add: feq)
  moreover have "col_index ''GEOID'' h = Some kr" using krf by (simp add: feq)
  ultimately show ?thesis using hb by simp
qed

lemma merged_key_column:
  assumes m: "merge l r ''GEOID'' = Inr m" and wf: "wf_frame l"
    and lk: "getitem ''GEOID'' l = Inr lk" and rk: "getitem ''GEOID'' r = Inr rk"
  shows "getitem ''GEOID'' m = Inr (map (\<lambda>p. lk ! fst p) (left_join_indexers lk rk))"
proof -
  from lk obtain kl where kl: "col_index ''GEOID'' (columns l) = Some kl"
    and lkeq: "lk = map (\<lambda>r. cell_at kl (snd r)) (rows l)"
    by (auto simp: getitem_Inr)
  from rk obtain kr where kr: "col_index ''GEOID'' (columns r) = Some kr"
    and rkeq: "rk = map (\<lambda>r. cell_at kr (snd r)) (rows r)"
    by (auto simp: getitem_Inr)
  let ?ix = "left_join_indexers lk rk"
  from m kl kr lkeq rkeq have meq:
    "m = \<lparr>columns = merge_columns ''GEOID'' (columns l) (columns r),
          rows = zip [0..<length ?ix] (map (merge_row l r kr) ?ix)\<rparr>"
    by (auto simp: merge_Inr)
  have klm: "col_index ''GEOID'' (columns m) = Some kl"
    by (simp add: meq col_index_merge_columns [OF kl])
  have kl_lt: "kl < length (columns l)" using col_index_Some [OF kl] by simp
  have cell: "cell_at kl (merge_row l r kr p) = lk ! fst p" if "p \<in> set ?ix" for p
  proof -
    from that have i: "fst p < length (rows l)"
      using indexers_fst_bound [of p lk rk] by (simp add: lkeq)
    then have "length (snd (rows l ! fst p)) = length (columns l)"
      using wf by (simp add: wf_frame_def list_all_length)
    with kl_lt i show ?thesis
      by (simp add: merge_row_def cell_at_def nth_append lkeq)
  qed
  have "map (\<lambda>r. cell_at kl (snd r)) (rows m) = map (\<lambda>p. cell_at kl (merge_row l r kr p)) ?ix"
    by (rule nth_equalityI) (simp_all add: meq)
  also have "\<dots> = map (\<lambda>p. lk ! fst p) ?ix"
    using cell by simp
  finally show ?thesis using klm by (simp add: getitem_def)
qed

section \<open>Cardinality of the merged output\<close>

text \<open>
  Two attribute rows with the same normalized identifier both join the county that
  carries it: the output then has two rows for one boundary record.
\<close>

theorem merged_cardinality_counterexample:
  "fst (run duplicate_state) = None \<and>
   files duplicate_state geojson_path =
     Some (Table [''GEOID'', ''NAME'', ''geometry''] [[Str ''06001'', Str ''Alameda'', Geom ''P1'']]) \<and>
   length (rows (counties (snd (run duplicate_state)))) = 1 \<and>
   map snd (rows (merged_data (snd (run duplicate_state)))) =
     [[Str ''06001'', Str ''Alameda'', Geom ''P1'', Num 12],
      [Str ''06001'', Str ''Alameda'', Geom ''P1'', Num 7]]"
  by code_simp

lemma match_positions_snoc:
  "match_positions k (xs @ [x]) = match_positions k xs @ (if x = k then [length xs] else [])"
  by (auto simp: match_positions_def nth_append intro: filter_cong)

lemma match_positions_count: "length (match_positions k rk) = count_list rk k"
proof (induction rk rule: rev_induct)
  case Nil
  then show ?case by (simp add: match_positions_def)
next
  case (snoc x xs)
  have "length (match_positions k (xs @ [x])) =
          length (match_positions k xs) + (if x = k then 1 else 0)"
    by (simp add: match_positions_snoc)
  with snoc show ?case by simp
qed

lemma join_group_length: "length (join_group lk rk i) = max 1 (count_list rk (lk ! i))"
proof (cases "match_positions (lk ! i) rk")
  case Nil
  then have "count_list rk (lk ! i) = 0" using match_positions_count [of "lk ! i" rk] by simp
  with Nil show ?thesis by (simp add: join_group_def)
next
  case (Cons j js)
  then have "count_list rk (lk ! i) = Suc (length js)"
    using match_positions_count [of "lk ! i" rk] by simp
  with Cons show ?thesis by (simp add: join_group_def)
qed

lemma count_list_filter: "count_list (map f xs) y = length (filter (\<lambda>x. f x = y) xs)"
  by (induction xs) auto

lemma indexers_count:
  assumes "i < length lk"
  shows "count_list (map fst (left_join_indexers lk rk)) i = max 1 (count_list rk (lk ! i))"
  by (simp add: count_list_filter indexers_filter [OF assms] join_group_length)

lemma concat_groups_length_eq:
  "length (concat (map (join_group lk rk) is)) = length is \<longleftrightarrow>
     (\<forall>i\<in>set is. count_list rk (lk ! i) \<le> 1)"
proof (induction "is")
  case Nil
  then show ?case by simp
next
  case (Cons a "is")
  have ge: "length is \<le> length (concat (map (join_group lk rk) is))"
    by (rule concat_groups_length)
  have a: "length (join_group lk rk a) = max 1 (count_list rk (lk ! a))"
    by (rule join_group_length)
  show ?case
  proof (cases "count_list rk (lk ! a) \<le> 1")
    case True
    with a have "length (join_group lk rk a) = 1" by simp
    with Cons True show ?thesis by simp
  next
    case False
    with a have "2 \<le> length (join_group lk rk a)" by simp
    with ge False show ?thesis by auto
  qed
qed

lemma indexers_length_eq:
  "length (left_join_indexers lk rk) = length lk \<longleftrightarrow>
     (\<forall>i<length lk. count_list rk (lk ! i) \<le> 1)"
  using concat_groups_length_eq [of lk rk "[0..<length lk]"]
  by (auto simp: left_join_indexers_def)

lemma indexers_single:
  assumes "\<forall>i<length lk. count_list rk (lk ! i) \<le> 1"
  shows "map fst (left_join_indexers lk rk) = [0..<length lk]"
  unfolding left_join_indexers_def
  by (rule concat_groups_single) (use assms in \<open>simp add: match_positions_count\<close>)


text \<open>
  Claim C1, amended. Each boundary record gives one output row for every attribute
  record with its normalized identifier, and one output row when there is none, in
  boundary order, each output row being its boundary record followed by the attribute
  columns. So the merged output has exactly as many rows as the boundary collection (as
  the table of the boundary file) if and only if no boundary record's identifier occurs
  more than once among the attribute identifiers; then the n-th output row is the n-th
  boundary record followed by the attribute columns, and every boundary record appears
  exactly once.
\<close>

theorem merged_cardinality:
  assumes "run s = (None, s')"
    and "getitem ''GEOID'' (counties s') = Inr lk"
    and "getitem ''GEOID'' (csv_data s') = Inr rk"
  shows "(\<exists>h b. files s geojson_path = Some (Table h b) \<and> length b = length lk) \<and>
         length (rows (counties s')) = length lk \<and>
         (\<exists>src. length src = length (rows (merged_data s')) \<and> sorted src \<and>
            (\<forall>n<length src. \<exists>ext.
               snd (rows (merged_data s') ! n) = snd (rows (counties s') ! (src ! n)) @ ext) \<and>
            (\<forall>i<length lk. count_list src i = max 1 (count_list rk (lk ! i))) \<and>
            ((\<forall>i<length lk. count_list rk (lk ! i) \<le> 1) \<longrightarrow> src = [0..<length lk])) \<and>
         (length (rows (merged_data s')) = length lk \<longleftrightarrow>
            (\<forall>i<length lk. count_list rk (lk ! i) \<le> 1))"
proof -
  from merged_sources [OF run_ok_merge [OF assms(1)]] assms(2,3) obtain kr where
    mrows: "map snd (rows (merged_data s')) =
             map (merge_row (counties s') (csv_data s') kr) (left_join_indexers lk rk)"
    by auto
  let ?ix = "left_join_indexers lk rk"
  let ?src = "map fst ?ix"
  have len: "length ?src = length (rows (merged_data s'))"
    using arg_cong [OF mrows, of length] by simp
  have lklen: "length (rows (counties s')) = length lk"
    using assms(2) by (auto simp: getitem_Inr)
  from run_ok_counties [OF assms(1)] lklen have
    src_file: "\<exists>h b. files s geojson_path = Some (Table h b) \<and> length b = length lk"
    by auto
  have ext: "\<forall>n<length ?src. \<exists>ext.
      snd (rows (merged_data s') ! n) = snd (rows (counties s') ! (?src ! n)) @ ext"
  proof (intro allI impI)
    fix n assume n: "n < length ?src"
    then have "snd (rows (merged_data s') ! n) = map snd (rows (merged_data s')) ! n"
      using len by simp
    also have "\<dots> = merge_row (counties s') (csv_data s') kr (?ix ! n)"
      using n by (simp add: mrows)
    finally show "\<exists>ext. snd (rows (merged_data s') ! n) =
        snd (rows (counties s') ! (?src ! n)) @ ext"
      using n by (simp add: merge_row_def)
  qed
  have cnt: "\<forall>i<length lk. count_list ?src i = max 1 (count_list rk (lk ! i))"
    by (simp add: indexers_count)
  have single: "(\<forall>i<length lk. count_list rk (lk ! i) \<le> 1) \<longrightarrow> ?src = [0..<length lk]"
    using indexers_single by blast
  have S: "\<exists>src. length src = length (rows (merged_data s')) \<and> sorted src \<and>
            (\<forall>n<length src. \<exists>ext.
               snd (rows (merged_data s') ! n) = snd (rows (counties s') ! (src ! n)) @ ext) \<and>
            (\<forall>i<length lk. count_list src i = max 1 (count_list rk (lk ! i))) \<and>
            ((\<forall>i<length lk. count_list rk (lk ! i) \<le> 1) \<longrightarrow> src = [0..<length lk])"
  proof (intro exI conjI)
    show "length ?src = length (rows (merged_data s'))" by (rule len)
    show "sorted ?src" by (rule indexers_sorted)
    show "\<forall>n<length ?src. \<exists>ext.
      snd (rows (merged_data s') ! n) = snd (rows (counties s') ! (?src ! n)) @ ext"
      by (rule ext)
    show "\<forall>i<length lk. count_list ?src i = max 1 (count_list rk (lk ! i))" by (rule cnt)
    show "(\<forall>i<length lk. count_list rk (lk ! i) \<le> 1) \<longrightarrow> ?src = [0..<length lk]"
      by (rule single)
  qed
  have iff: "length (rows (merged_data s')) = length lk \<longleftrightarrow>
      (\<forall>i<length lk. count_list rk (lk ! i) \<le> 1)"
    using indexers_length_eq [of lk rk] len by simp
  from src_file lklen S iff show ?thesis by (intro conjI)
qed

theorem merged_cardinality_witness:
  "run repeated_unmatched_state = (None, snd (run repeated_unmatched_state)) \<and>
   getitem ''GEOID'' (counties (snd (run repeated_unmatched_state))) = Inr [Str ''06001''] \<and>
   getitem ''GEOID'' (csv_data (snd (run repeated_unmatched_state))) =
     Inr [Str ''99999'', Str ''99999''] \<and>
   length (rows (merged_data (snd (run repeated_unmatched_state)))) = 1 \<and>
   run duplicate_state = (None, snd (run duplicate_state)) \<and>
   getitem ''GEOID'' (counties (snd (run duplicate_state))) = Inr [Str ''06001''] \<and>
   getitem ''GEOID'' (csv_data (snd (run duplicate_state))) =
     Inr [Str ''06001'', Str ''06001''] \<and>
   length (rows (merged_data (snd (run duplicate_state)))) \<noteq> 1 \<and>
   map snd (rows (merged_data (snd (run repeated_unmatched_state)))) =
     [[Str ''06001'', Str ''Alameda'', Geom ''P1'', NaN]]"
proof -
  have "fst (run repeated_unmatched_state) = None" by code_simp
  then have ok: "run repeated_unmatched_state = (None, snd (run repeated_unmatched_state))"
    by (simp add: prod_eq_iff)
  have lk: "getitem ''GEOID'' (counties (snd (run repeated_unmatched_state))) =
              Inr [Str ''06001'']" by code_simp
  have rk: "getitem ''GEOID'' (csv_data (snd (run repeated_unmatched_state))) =
              Inr [Str ''99999'', Str ''99999'']" by code_simp
  from merged_cardinality [OF ok lk rk] have
    "length (rows (merged_data (snd (run repeated_unmatched_state)))) = length [Str ''06001''] \<longleftrightarrow>
       (\<forall>i<length [Str ''06001'']. count_list [Str ''99999'', Str ''99999''] ([Str ''06001''] ! i) \<le> 1)"
    by (elim conjE)
  then have one: "length (rows (merged_data (snd (run repeated_unmatched_state)))) = 1"
    by simp
  have "fst (run duplicate_state) = None" by code_simp
  then have ok2: "run duplicate_state = (None, snd (run duplicate_state))"
    by (simp add: prod_eq_iff)
  have lk2: "getitem ''GEOID'' (counties (snd (run duplicate_state))) =
              Inr [Str ''06001'']" by code_simp
  have rk2: "getitem ''GEOID'' (csv_data (snd (run duplicate_state))) =
              Inr [Str ''06001'', Str ''06001'']" by code_simp
  from merged_cardinality [OF ok2 lk2 rk2] have
    "length (rows (merged_data (snd (run duplicate_state)))) = length [Str ''06001''] \<longleftrightarrow>
       (\<forall>i<length [Str ''06001'']. count_list [Str ''06001'', Str ''06001''] ([Str ''06001''] ! i) \<le> 1)"
    by (elim conjE)
  then have two: "length (rows (merged_data (snd (run duplicate_state)))) \<noteq> 1"
    by simp
  have row: "map snd (rows (merged_data (snd (run repeated_unmatched_state)))) =
     [[Str ''06001'', Str ''Alameda'', Geom ''P1'', NaN]]" by code_simp
  from ok lk rk one ok2 lk2 rk2 two row show ?thesis by (intro conjI)
qed

section \<open>Left-join semantics\<close>

lemma match_positions_empty: "match_positions k rk = [] \<longleftrightarrow> k \<notin> set rk"
  by (auto simp: match_positions_def filter_empty_conv in_set_conv_nth)

lemma indexers_None:
  "(i, None) \<in> set (left_join_indexers lk rk) \<longleftrightarrow> i < length lk \<and> lk ! i \<notin> set rk"
  by (auto simp: left_join_indexers_def join_group_set match_positions_empty split: if_splits)

lemma merged_row_at:
  assumes "merge l r on = Inr m" "getitem on l = Inr lk" "getitem on r = Inr rk"
    and "col_index on (columns r) = Some kr"
  shows "length (rows m) = length (left_join_indexers lk rk)"
    and "n < length (left_join_indexers lk rk) \<Longrightarrow>
           snd (rows m ! n) = merge_row l r kr (left_join_indexers lk rk ! n)"
  using assms by (auto simp: merge_Inr getitem_Inr)

lemma merged_columns_explicit:
  assumes "merge l r on = Inr m"
  shows "columns m =
           map (\<lambda>c. if c \<noteq> on \<and> c \<in> set (columns r) then c @ ''_x'' else c) (columns l) @
           map (\<lambda>c. if c \<in> set (columns l) then c @ ''_y'' else c) (remove1 on (columns r))"
  using assms by (auto simp: merge_Inr merge_columns_def)

lemma wf_frame_row:
  "wf_frame f \<Longrightarrow> i < length (rows f) \<Longrightarrow> length (snd (rows f ! i)) = length (columns f)"
  by (simp add: wf_frame_def list_all_length)

text \<open>
  Claim C2. The merge is a left join on the normalized identifier. The output has the
  boundary columns followed by the attribute columns other than the identifier. Every
  output row carries the identifier of a boundary record and is that boundary record
  followed either by a missing value in every attribute-only column, when no attribute
  record has its identifier, or by the remaining cells of an attribute record with the
  same identifier. A boundary record with no matching attribute record appears in the
  output, followed by missing values only; a boundary record appears with each attribute
  record that matches it. The identifier of an attribute record that matches no boundary
  record occurs nowhere in the identifier column of the output, so no output row carries
  that record.
\<close>

theorem left_join_semantics:
  assumes "run s = (None, s')"
    and "getitem ''GEOID'' (counties s') = Inr lk"
    and "getitem ''GEOID'' (csv_data s') = Inr rk"
  shows "\<exists>kr ks. col_index ''GEOID'' (columns (csv_data s')) = Some kr \<and>
           getitem ''GEOID'' (merged_data s') = Inr ks \<and>
           length ks = length (rows (merged_data s')) \<and>
           columns (merged_data s') =
             map (\<lambda>c. if c \<noteq> ''GEOID'' \<and> c \<in> set (columns (csv_data s')) then c @ ''_x'' else c)
               (columns (counties s')) @
             map (\<lambda>c. if c \<in> set (columns (counties s')) then c @ ''_y'' else c)
               (remove1 ''GEOID'' (columns (csv_data s'))) \<and>
           (\<forall>i<length lk. length (snd (rows (counties s') ! i)) = length (columns (counties s'))) \<and>
           (\<forall>j<length rk. length (snd (rows (csv_data s') ! j)) = length (columns (csv_data s'))) \<and>
           (\<forall>n<length (rows (merged_data s')). \<exists>i<length lk. ks ! n = lk ! i \<and>
              (lk ! i \<notin> set rk \<and>
               snd (rows (merged_data s') ! n) =
                 snd (rows (counties s') ! i) @
                 replicate (length (columns (csv_data s')) - 1) NaN
               \<or>
               (\<exists>j<length rk. rk ! j = lk ! i \<and>
                  snd (rows (merged_data s') ! n) =
                    snd (rows (counties s') ! i) @
                    take kr (snd (rows (csv_data s') ! j)) @
                    drop (Suc kr) (snd (rows (csv_data s') ! j))))) \<and>
           (\<forall>i<length lk. lk ! i \<notin> set rk \<longrightarrow>
              (\<exists>n<length (rows (merged_data s')). ks ! n = lk ! i \<and>
                 snd (rows (merged_data s') ! n) =
                   snd (rows (counties s') ! i) @
                   replicate (length (columns (csv_data s')) - 1) NaN)) \<and>
           (\<forall>i<length lk. \<forall>j<length rk. rk ! j = lk ! i \<longrightarrow>
              (\<exists>n<length (rows (merged_data s')). ks ! n = lk ! i \<and>
                 snd (rows (merged_data s') ! n) =
                   snd (rows (counties s') ! i) @
                   take kr (snd (rows (csv_data s') ! j)) @
                   drop (Suc kr) (snd (rows (csv_data s') ! j)))) \<and>
           (\<forall>j<length rk. rk ! j \<notin> set lk \<longrightarrow> rk ! j \<notin> set ks)"
proof -
  let ?l = "counties s'" and ?r = "csv_data s'" and ?m = "merged_data s'"
  let ?ix = "left_join_indexers lk rk"
  let ?ks = "map (\<lambda>p. lk ! fst p) ?ix"
  let ?nan = "replicate (length (columns ?r) - 1) NaN"
  have m: "merge ?l ?r ''GEOID'' = Inr ?m" by (rule run_ok_merge [OF assms(1)])
  from assms(3) obtain kr where kr: "col_index ''GEOID'' (columns ?r) = Some kr"
    by (auto simp: getitem_Inr)
  have wfl: "wf_frame ?l" using run_ok_counties [OF assms(1)] by blast
  have wfr: "wf_frame ?r" using run_ok_csv [OF assms(1)] by blast
  have ks: "getitem ''GEOID'' ?m = Inr ?ks"
    by (rule merged_key_column [OF m wfl assms(2) assms(3)])
  have len: "length (rows ?m) = length ?ix"
    by (rule merged_row_at(1) [OF m assms(2) assms(3) kr])
  have row: "snd (rows ?m ! n) = merge_row ?l ?r kr (?ix ! n)" if "n < length ?ix" for n
    using that by (rule merged_row_at(2) [OF m assms(2) assms(3) kr])
  have cols: "columns ?m =
             map (\<lambda>c. if c \<noteq> ''GEOID'' \<and> c \<in> set (columns ?r) then c @ ''_x'' else c)
               (columns ?l) @
             map (\<lambda>c. if c \<in> set (columns ?l) then c @ ''_y'' else c)
               (remove1 ''GEOID'' (columns ?r))"
    by (rule merged_columns_explicit [OF m])
  have lenl: "length (rows ?l) = length lk" using assms(2) by (auto simp: getitem_Inr)
  have lenr: "length (rows ?r) = length rk" using assms(3) by (auto simp: getitem_Inr)
  have widthl: "\<forall>i<length lk. length (snd (rows ?l ! i)) = length (columns ?l)"
    using wf_frame_row [OF wfl] lenl by simp
  have widthr: "\<forall>j<length rk. length (snd (rows ?r ! j)) = length (columns ?r)"
    using wf_frame_row [OF wfr] lenr by simp
  have none_row: "snd (rows ?m ! n) = snd (rows ?l ! i) @ ?nan"
    if "n < length ?ix" "?ix ! n = (i, None)" for n i
    using row [OF that(1)] that(2) by (simp add: merge_row_def)
  have some_row: "snd (rows ?m ! n) =
      snd (rows ?l ! i) @ take kr (snd (rows ?r ! j)) @ drop (Suc kr) (snd (rows ?r ! j))"
    if "n < length ?ix" "?ix ! n = (i, Some j)" for n i j
    using row [OF that(1)] that(2) by (simp add: merge_row_def drop_at_def)
  have every: "\<forall>n<length (rows ?m). \<exists>i<length lk. ?ks ! n = lk ! i \<and>
              (lk ! i \<notin> set rk \<and> snd (rows ?m ! n) = snd (rows ?l ! i) @ ?nan
               \<or>
               (\<exists>j<length rk. rk ! j = lk ! i \<and>
                  snd (rows ?m ! n) =
                    snd (rows ?l ! i) @
                    take kr (snd (rows ?r ! j)) @ drop (Suc kr) (snd (rows ?r ! j))))"
  proof (intro allI impI)
    fix n assume "n < length (rows ?m)"
    then have n: "n < length ?ix" by (simp add: len)
    obtain i q where p: "?ix ! n = (i, q)" by (cases "?ix ! n")
    from n p have mem: "(i, q) \<in> set ?ix" by (metis nth_mem)
    then have i: "i < length lk" using indexers_fst_bound [of "(i, q)" lk rk] by simp
    have k: "?ks ! n = lk ! i" using n p by simp
    have "lk ! i \<notin> set rk \<and> snd (rows ?m ! n) = snd (rows ?l ! i) @ ?nan
               \<or>
               (\<exists>j<length rk. rk ! j = lk ! i \<and>
                  snd (rows ?m ! n) =
                    snd (rows ?l ! i) @
                    take kr (snd (rows ?r ! j)) @ drop (Suc kr) (snd (rows ?r ! j)))"
    proof (cases q)
      case None
      with mem have "lk ! i \<notin> set rk" by (simp add: indexers_None)
      moreover have "snd (rows ?m ! n) = snd (rows ?l ! i) @ ?nan"
        using none_row [OF n] p None by simp
      ultimately show ?thesis by simp
    next
      case (Some j)
      with mem have "j < length rk" "rk ! j = lk ! i" by (simp_all add: indexers_Some)
      moreover have "snd (rows ?m ! n) =
          snd (rows ?l ! i) @ take kr (snd (rows ?r ! j)) @ drop (Suc kr) (snd (rows ?r ! j))"
        using some_row [OF n] p Some by simp
      ultimately show ?thesis by blast
    qed
    with i k show "\<exists>i<length lk. ?ks ! n = lk ! i \<and>
              (lk ! i \<notin> set rk \<and> snd (rows ?m ! n) = snd (rows ?l ! i) @ ?nan
               \<or>
               (\<exists>j<length rk. rk ! j = lk ! i \<and>
                  snd (rows ?m ! n) =
                    snd (rows ?l ! i) @
                    take kr (snd (rows ?r ! j)) @ drop (Suc kr) (snd (rows ?r ! j))))"
      by blast
  qed
  have unmatched_left: "\<forall>i<length lk. lk ! i \<notin> set rk \<longrightarrow>
              (\<exists>n<length (rows ?m). ?ks ! n = lk ! i \<and>
                 snd (rows ?m ! n) = snd (rows ?l ! i) @ ?nan)"
  proof (intro allI impI)
    fix i assume "i < length lk" "lk ! i \<notin> set rk"
    then have "(i, None) \<in> set ?ix" by (simp add: indexers_None)
    then obtain n where n: "n < length ?ix" and p: "?ix ! n = (i, None)"
      by (auto simp: in_set_conv_nth)
    have "?ks ! n = lk ! i" using n p by simp
    moreover have "snd (rows ?m ! n) = snd (rows ?l ! i) @ ?nan" by (rule none_row [OF n p])
    ultimately show "\<exists>n<length (rows ?m). ?ks ! n = lk ! i \<and>
                 snd (rows ?m ! n) = snd (rows ?l ! i) @ ?nan"
      using n len by auto
  qed
  have matched: "\<forall>i<length lk. \<forall>j<length rk. rk ! j = lk ! i \<longrightarrow>
              (\<exists>n<length (rows ?m). ?ks ! n = lk ! i \<and>
                 snd (rows ?m ! n) =
                   snd (rows ?l ! i) @
                   take kr (snd (rows ?r ! j)) @ drop (Suc kr) (snd (rows ?r ! j)))"
  proof (intro allI impI)
    fix i j assume "i < length lk" "j < length rk" "rk ! j = lk ! i"
    then have "(i, Some j) \<in> set ?ix" by (simp add: indexers_Some)
    then obtain n where n: "n < length ?ix" and p: "?ix ! n = (i, Some j)"
      by (auto simp: in_set_conv_nth)
    have "?ks ! n = lk ! i" using n p by simp
    moreover have "snd (rows ?m ! n) =
        snd (rows ?l ! i) @ take kr (snd (rows ?r ! j)) @ drop (Suc kr) (snd (rows ?r ! j))"
      by (rule some_row [OF n p])
    ultimately show "\<exists>n<length (rows ?m). ?ks ! n = lk ! i \<and>
                 snd (rows ?m ! n) =
                   snd (rows ?l ! i) @
                   take kr (snd (rows ?r ! j)) @ drop (Suc kr) (snd (rows ?r ! j))"
      using n len by auto
  qed
  have sub: "set ?ks \<subseteq> set lk"
    using indexers_fst_bound [of _ lk rk] by auto
  have unmatched_right: "\<forall>j<length rk. rk ! j \<notin> set lk \<longrightarrow> rk ! j \<notin> set ?ks"
    using sub by blast
  have lks: "length ?ks = length (rows ?m)" by (simp add: len)
  show ?thesis
  proof (intro exI conjI)
    show "col_index ''GEOID'' (columns ?r) = Some kr" by (rule kr)
    show "getitem ''GEOID'' ?m = Inr ?ks" by (rule ks)
    show "length ?ks = length (rows ?m)" by (rule lks)
    show "columns ?m =
             map (\<lambda>c. if c \<noteq> ''GEOID'' \<and> c \<in> set (columns ?r) then c @ ''_x'' else c)
               (columns ?l) @
             map (\<lambda>c. if c \<in> set (columns ?l) then c @ ''_y'' else c)
               (remove1 ''GEOID'' (columns ?r))" by (rule cols)
    show "\<forall>i<length lk. length (snd (rows ?l ! i)) = length (columns ?l)" by (rule widthl)
    show "\<forall>j<length rk. length (snd (rows ?r ! j)) = length (columns ?r)" by (rule widthr)
    show "\<forall>n<length (rows ?m). \<exists>i<length lk. ?ks ! n = lk ! i \<and>
              (lk ! i \<notin> set rk \<and> snd (rows ?m ! n) = snd (rows ?l ! i) @ ?nan
               \<or>
               (\<exists>j<length rk. rk ! j = lk ! i \<and>
                  snd (rows ?m ! n) =
                    snd (rows ?l ! i) @
                    take kr (snd (rows ?r ! j)) @ drop (Suc kr) (snd (rows ?r ! j))))"
      by (rule every)
    show "\<forall>i<length lk. lk ! i \<notin> set rk \<longrightarrow>
              (\<exists>n<length (rows ?m). ?ks ! n = lk ! i \<and>
                 snd (rows ?m ! n) = snd (rows ?l ! i) @ ?nan)" by (rule unmatched_left)
    show "\<forall>i<length lk. \<forall>j<length rk. rk ! j = lk ! i \<longrightarrow>
              (\<exists>n<length (rows ?m). ?ks ! n = lk ! i \<and>
                 snd (rows ?m ! n) =
                   snd (rows ?l ! i) @
                   take kr (snd (rows ?r ! j)) @ drop (Suc kr) (snd (rows ?r ! j)))"
      by (rule matched)
    show "\<forall>j<length rk. rk ! j \<notin> set lk \<longrightarrow> rk ! j \<notin> set ?ks" by (rule unmatched_right)
  qed
qed

theorem left_join_semantics_witness:
  "run example_state = (None, snd (run example_state)) \<and>
   getitem ''GEOID'' (counties (snd (run example_state))) =
     Inr [Str ''06001'', Str ''72001'', Str ''01001''] \<and>
   getitem ''GEOID'' (csv_data (snd (run example_state))) =
     Inr [Str ''06001'', Str ''99999''] \<and>
   columns (merged_data (snd (run example_state))) = [''GEOID'', ''NAME'', ''geometry'', ''cases''] \<and>
   map snd (rows (merged_data (snd (run example_state)))) =
     [[Str ''06001'', Str ''Alameda'', Geom ''P1'', Num 12],
      [Str ''72001'', Str ''Adjuntas'', Geom ''P2'', NaN],
      [Str ''01001'', Str ''Autauga'', Geom ''P3'', NaN]] \<and>
   (\<exists>ks. getitem ''GEOID'' (merged_data (snd (run example_state))) = Inr ks \<and>
      Str ''99999'' \<notin> set ks) \<and>
   map snd (rows (merged_data (snd (run duplicate_state)))) =
     [[Str ''06001'', Str ''Alameda'', Geom ''P1'', Num 12],
      [Str ''06001'', Str ''Alameda'', Geom ''P1'', Num 7]]"
proof -
  have dup: "map snd (rows (merged_data (snd (run duplicate_state)))) =
     [[Str ''06001'', Str ''Alameda'', Geom ''P1'', Num 12],
      [Str ''06001'', Str ''Alameda'', Geom ''P1'', Num 7]]" by code_simp
  have "fst (run example_state) = None" by code_simp
  then have ok: "run example_state = (None, snd (run example_state))"
    by (simp add: prod_eq_iff)
  have lk: "getitem ''GEOID'' (counties (snd (run example_state))) =
              Inr [Str ''06001'', Str ''72001'', Str ''01001'']"
    by code_simp
  have rk: "getitem ''GEOID'' (csv_data (snd (run example_state))) =
              Inr [Str ''06001'', Str ''99999'']"
    by code_simp
  have cols: "columns (merged_data (snd (run example_state))) =
      [''GEOID'', ''NAME'', ''geometry'', ''cases'']" by code_simp
  have rws: "map snd (rows (merged_data (snd (run example_state)))) =
     [[Str ''06001'', Str ''Alameda'', Geom ''P1'', Num 12],
      [Str ''72001'', Str ''Adjuntas'', Geom ''P2'', NaN],
      [Str ''01001'', Str ''Autauga'', Geom ''P3'', NaN]]" by code_simp
  from left_join_semantics [OF ok lk rk] obtain ks where
    ks: "getitem ''GEOID'' (merged_data (snd (run example_state))) = Inr ks" and
    dropped: "\<forall>j<length [Str ''06001'', Str ''99999''].
       [Str ''06001'', Str ''99999''] ! j \<notin> set [Str ''06001'', Str ''72001'', Str ''01001''] \<longrightarrow>
       [Str ''06001'', Str ''99999''] ! j \<notin> set ks"
    by (elim exE conjE)
  from dropped [rule_format, of 1] have "Str ''99999'' \<notin> set ks" by simp
  with ks have ex: "\<exists>ks. getitem ''GEOID'' (merged_data (snd (run example_state))) = Inr ks \<and>
      Str ''99999'' \<notin> set ks" by blast
  from ok lk rk cols rws ex dup show ?thesis by (intro conjI)
qed

section \<open>Zero filling\<close>

lemma zfill_plain:
  assumes "length s < w" and "s = [] \<or> (hd s \<noteq> CHR ''+'' \<and> hd s \<noteq> CHR ''-'')"
  shows "zfill w s = replicate (w - length s) CHR ''0'' @ s"
proof (cases s)
  case Nil
  then show ?thesis using assms by (simp add: zfill_def Let_def)
next
  case (Cons c u)
  with assms have "c \<noteq> CHR ''+''" "c \<noteq> CHR ''-''" by auto
  with Cons assms(1) show ?thesis by (simp add: zfill_def Let_def nth_append)
qed

lemma zfill_signed:
  assumes "length (c # u) < w" and "c = CHR ''+'' \<or> c = CHR ''-''"
  shows "zfill w (c # u) = c # replicate (w - length (c # u)) CHR ''0'' @ u"
proof -
  from assms(1) obtain k where k: "w - length (c # u) = Suc k"
    by (cases "w - length (c # u)") auto
  have u: "(replicate (Suc k) CHR ''0'' @ c # u) ! Suc k = c"
    by (simp add: nth_append)
  have upd: "((replicate (Suc k) CHR ''0'' @ c # u)[0 := c])[Suc k := CHR ''0'']
               = c # replicate k CHR ''0'' @ CHR ''0'' # u"
    by (simp add: list_update_append)
  have "zfill w (c # u) = ((replicate (Suc k) CHR ''0'' @ c # u)[0 := c])[Suc k := CHR ''0'']"
    using assms k u by (simp add: zfill_def Let_def del: replicate_Suc replicate.simps)
  also have "\<dots> = c # replicate (Suc k) CHR ''0'' @ u"
    unfolding upd by (simp add: replicate_app_Cons_same)
  finally show ?thesis using k by simp
qed

lemma zfill_short_head:
  assumes "length s < w"
  shows "hd (zfill w s) = CHR ''0'' \<or> (s \<noteq> [] \<and> hd (zfill w s) = hd s \<and>
           (hd s = CHR ''+'' \<or> hd s = CHR ''-''))"
proof (cases "s = [] \<or> (hd s \<noteq> CHR ''+'' \<and> hd s \<noteq> CHR ''-'')")
  case True
  from assms obtain k where "w - length s = Suc k" by (cases "w - length s") auto
  with zfill_plain [OF assms True] show ?thesis by simp
next
  case False
  then obtain c u where s: "s = c # u" and c: "c = CHR ''+'' \<or> c = CHR ''-''"
    by (cases s) auto
  from zfill_signed [OF assms [unfolded s] c] s c show ?thesis by auto
qed

lemma zfill_short_not_72:
  assumes "length s < w"
  shows "\<not> startswith ''72'' (zfill w s)"
proof
  assume "startswith ''72'' (zfill w s)"
  then have "take (Suc (Suc 0)) (zfill w s) = ''72''" by (simp add: startswith_def)
  then have "hd (zfill w s) = CHR ''7''"
    by (cases "zfill w s") auto
  with zfill_short_head [OF assms] show False by auto
qed

section \<open>Width of the output identifiers\<close>

text \<open>
  An identifier of six characters is not cut to five: it reaches the output as it is.
\<close>

theorem output_identifier_width_counterexample:
  "fst (run long_state) = None \<and>
   getitem ''GEOID'' (merged_data (snd (run long_state))) = Inr [Str ''123456''] \<and>
   length ''123456'' = 6"
  by code_simp

lemma run_ok_merged_keys:
  assumes "run s = (None, s')" and "getitem ''GEOID'' (counties s') = Inr lk"
    and "getitem ''GEOID'' (csv_data s') = Inr rk"
  shows "getitem ''GEOID'' (merged_data s') =
           Inr (map (\<lambda>p. lk ! fst p) (left_join_indexers lk rk))"
proof -
  from run_ok_counties [OF assms(1)] have "wf_frame (counties s')" by auto
  from merged_key_column [OF run_ok_merge [OF assms(1)] this assms(2,3)] show ?thesis .
qed

lemma zfill_signed_hd:
  assumes "length t < w" and "t \<noteq> []" and "hd t = CHR ''+'' \<or> hd t = CHR ''-''"
  shows "zfill w t = hd t # replicate (w - length t) CHR ''0'' @ tl t"
proof -
  from assms(2) obtain c u where t: "t = c # u" by (cases t) auto
  from assms(1,3) have "length (c # u) < w" "c = CHR ''+'' \<or> c = CHR ''-''"
    by (simp_all add: t)
  from zfill_signed [OF this] show ?thesis by (simp add: t)
qed

lemma zfill_explicit:
  "length (zfill w t) = max w (length t) \<and>
   (w \<le> length t \<longrightarrow> zfill w t = t) \<and>
   (length t < w \<longrightarrow> (t = [] \<or> (hd t \<noteq> CHR ''+'' \<and> hd t \<noteq> CHR ''-'')) \<longrightarrow>
      zfill w t = replicate (w - length t) CHR ''0'' @ t) \<and>
   (length t < w \<longrightarrow> t \<noteq> [] \<longrightarrow> (hd t = CHR ''+'' \<or> hd t = CHR ''-'') \<longrightarrow>
      zfill w t = hd t # replicate (w - length t) CHR ''0'' @ tl t)"
proof (intro conjI impI)
  show "length (zfill w t) = max w (length t)" by (rule zfill_length)
  show "zfill w t = t" if "w \<le> length t" using that by (rule zfill_long)
  show "zfill w t = replicate (w - length t) CHR ''0'' @ t"
    if "length t < w" "t = [] \<or> (hd t \<noteq> CHR ''+'' \<and> hd t \<noteq> CHR ''-'')"
    using that by (rule zfill_plain)
  show "zfill w t = hd t # replicate (w - length t) CHR ''0'' @ tl t"
    if "length t < w" "t \<noteq> []" "hd t = CHR ''+'' \<or> hd t = CHR ''-''"
    using that by (rule zfill_signed_hd)
qed

lemma normalized_explicit:
  "\<exists>t u. astype_str c = Str t \<and> str_zfill 5 (astype_str c) = Str u \<and>
      length u = max 5 (length t) \<and>
      (5 \<le> length t \<longrightarrow> u = t) \<and>
      (length t < 5 \<longrightarrow> (t = [] \<or> (hd t \<noteq> CHR ''+'' \<and> hd t \<noteq> CHR ''-'')) \<longrightarrow>
         u = replicate (5 - length t) CHR ''0'' @ t) \<and>
      (length t < 5 \<longrightarrow> t \<noteq> [] \<longrightarrow> (hd t = CHR ''+'' \<or> hd t = CHR ''-'') \<longrightarrow>
         u = hd t # replicate (5 - length t) CHR ''0'' @ tl t)"
proof -
  from normalized_not_missing [of 5 c] obtain t where
    z: "str_zfill 5 (astype_str c) = Str (zfill 5 t)" and t: "astype_str c = Str t" by blast
  note e = zfill_explicit [of 5 t]
  show ?thesis
    apply (rule exI [of _ t])
    apply (rule exI [of _ "zfill 5 t"])
    apply (rule conjI [OF t])
    apply (rule conjI [OF z])
    apply (rule e)
    done
qed


text \<open>
  Claim C4, amended. Every identifier in the output is a string made from the string
  form of the identifier of some boundary record. A string form of five or more
  characters reaches the output unchanged, however long it is. A shorter one is filled
  to exactly five characters with the character 0 on its left; when it begins with a
  sign, the sign stays in front and the zeros follow it. So an output identifier has at
  least five characters, and exactly five when the original has at most five.
\<close>

theorem output_identifier_width:
  assumes "run s = (None, s')"
  shows "\<exists>h b kl ks. files s geojson_path = Some (Table h b) \<and>
           col_index ''GEOID'' h = Some kl \<and>
           getitem ''GEOID'' (merged_data s') = Inr ks \<and>
           (\<forall>k\<in>set ks. \<exists>r\<in>set b. \<exists>t u.
              astype_str (cell_at kl r) = Str t \<and> k = Str u \<and>
              length u = max 5 (length t) \<and>
              (5 \<le> length t \<longrightarrow> u = t) \<and>
              (length t < 5 \<longrightarrow> (t = [] \<or> (hd t \<noteq> CHR ''+'' \<and> hd t \<noteq> CHR ''-'')) \<longrightarrow>
                 u = replicate (5 - length t) CHR ''0'' @ t) \<and>
              (length t < 5 \<longrightarrow> t \<noteq> [] \<longrightarrow> (hd t = CHR ''+'' \<or> hd t = CHR ''-'') \<longrightarrow>
                 u = hd t # replicate (5 - length t) CHR ''0'' @ tl t))"
proof -
  from run_ok_counties [OF assms] obtain h b kl where
    hb: "files s geojson_path = Some (Table h b)" and
    kl: "col_index ''GEOID'' h = Some kl" and
    lk: "getitem ''GEOID'' (counties s') =
           Inr (map (\<lambda>r. str_zfill 5 (astype_str (cell_at kl r))) b)"
    by blast
  from run_ok_csv [OF assms] obtain rk where
    rk: "getitem ''GEOID'' (csv_data s') = Inr rk" by blast
  let ?lk = "map (\<lambda>r. str_zfill 5 (astype_str (cell_at kl r))) b"
  let ?ks = "map (\<lambda>p. ?lk ! fst p) (left_join_indexers ?lk rk)"
  have ks: "getitem ''GEOID'' (merged_data s') = Inr ?ks"
    by (rule run_ok_merged_keys [OF assms lk rk])
  have each: "\<exists>r\<in>set b. \<exists>t u.
              astype_str (cell_at kl r) = Str t \<and> k = Str u \<and>
              length u = max 5 (length t) \<and>
              (5 \<le> length t \<longrightarrow> u = t) \<and>
              (length t < 5 \<longrightarrow> (t = [] \<or> (hd t \<noteq> CHR ''+'' \<and> hd t \<noteq> CHR ''-'')) \<longrightarrow>
                 u = replicate (5 - length t) CHR ''0'' @ t) \<and>
              (length t < 5 \<longrightarrow> t \<noteq> [] \<longrightarrow> (hd t = CHR ''+'' \<or> hd t = CHR ''-'') \<longrightarrow>
                 u = hd t # replicate (5 - length t) CHR ''0'' @ tl t)" if "k \<in> set ?ks" for k
  proof -
    from that obtain p where p: "p \<in> set (left_join_indexers ?lk rk)" and k: "k = ?lk ! fst p"
      by auto
    from indexers_fst_bound [OF p] have i: "fst p < length b" by simp
    then have r: "b ! fst p \<in> set b" by simp
    from normalized_explicit [of "cell_at kl (b ! fst p)"] obtain t u where
      A: "astype_str (cell_at kl (b ! fst p)) = Str t" and
      B: "str_zfill 5 (astype_str (cell_at kl (b ! fst p))) = Str u" and
      C: "length u = max 5 (length t)" and
      D: "5 \<le> length t \<longrightarrow> u = t" and
      E: "length t < 5 \<longrightarrow> (t = [] \<or> (hd t \<noteq> CHR ''+'' \<and> hd t \<noteq> CHR ''-'')) \<longrightarrow>
                 u = replicate (5 - length t) CHR ''0'' @ t" and
      F: "length t < 5 \<longrightarrow> t \<noteq> [] \<longrightarrow> (hd t = CHR ''+'' \<or> hd t = CHR ''-'') \<longrightarrow>
                 u = hd t # replicate (5 - length t) CHR ''0'' @ tl t"
      by (elim exE conjE)
    have ku: "k = Str u" using k i B by simp
    show ?thesis
      apply (rule bexI [OF _ r])
      apply (rule exI [of _ t])
      apply (rule exI [of _ u])
      apply (intro conjI)
           apply (rule A)
          apply (rule ku)
         apply (rule C)
        apply (rule D)
       apply (rule E)
      apply (rule F)
      done
  qed
  show ?thesis
    apply (rule exI [of _ h])
    apply (rule exI [of _ b])
    apply (rule exI [of _ kl])
    apply (rule exI [of _ "?ks"])
    apply (intro conjI ballI)
       apply (rule hb)
      apply (rule kl)
     apply (rule ks)
    apply (rule each)
    apply assumption
    done
qed

theorem output_identifier_width_witness:
  "run example_state = (None, snd (run example_state)) \<and>
   files example_state geojson_path =
     Some (Table [''GEOID'', ''NAME'', ''geometry'']
        [[Str ''6001'', Str ''Alameda'', Geom ''P1''],
         [Str ''72001'', Str ''Adjuntas'', Geom ''P2''],
         [Num 1001, Str ''Autauga'', Geom ''P3'']]) \<and>
   getitem ''GEOID'' (merged_data (snd (run example_state))) =
     Inr [Str ''06001'', Str ''72001'', Str ''01001''] \<and>
   getitem ''GEOID'' (merged_data (snd (run long_state))) = Inr [Str ''123456''] \<and>
   getitem ''GEOID'' (merged_data (snd (run signed_state))) = Inr [Str ''-0001''] \<and>
   (\<exists>h b kl ks. files example_state geojson_path = Some (Table h b) \<and>
           col_index ''GEOID'' h = Some kl \<and>
           getitem ''GEOID'' (merged_data (snd (run example_state))) = Inr ks \<and>
           (\<forall>k\<in>set ks. \<exists>r\<in>set b. \<exists>t u.
              astype_str (cell_at kl r) = Str t \<and> k = Str u \<and>
              length u = max 5 (length t) \<and>
              (5 \<le> length t \<longrightarrow> u = t) \<and>
              (length t < 5 \<longrightarrow> (t = [] \<or> (hd t \<noteq> CHR ''+'' \<and> hd t \<noteq> CHR ''-'')) \<longrightarrow>
                 u = replicate (5 - length t) CHR ''0'' @ t) \<and>
              (length t < 5 \<longrightarrow> t \<noteq> [] \<longrightarrow> (hd t = CHR ''+'' \<or> hd t = CHR ''-'') \<longrightarrow>
                 u = hd t # replicate (5 - length t) CHR ''0'' @ tl t)))"
proof -
  have "fst (run example_state) = None" by code_simp
  then have ok: "run example_state = (None, snd (run example_state))"
    by (simp add: prod_eq_iff)
  have fl: "files example_state geojson_path =
     Some (Table [''GEOID'', ''NAME'', ''geometry'']
        [[Str ''6001'', Str ''Alameda'', Geom ''P1''],
         [Str ''72001'', Str ''Adjuntas'', Geom ''P2''],
         [Num 1001, Str ''Autauga'', Geom ''P3'']])" by code_simp
  have ks: "getitem ''GEOID'' (merged_data (snd (run example_state))) =
     Inr [Str ''06001'', Str ''72001'', Str ''01001'']" by code_simp
  have long: "getitem ''GEOID'' (merged_data (snd (run long_state))) = Inr [Str ''123456'']"
    by code_simp
  have signed: "getitem ''GEOID'' (merged_data (snd (run signed_state))) = Inr [Str ''-0001'']"
    by code_simp
  note inst = output_identifier_width [OF ok]
  show ?thesis
    apply (intro conjI)
         apply (rule ok)
        apply (rule fl)
       apply (rule ks)
      apply (rule long)
     apply (rule signed)
    apply (rule inst)
    done
qed

section \<open>Normalization of the identifiers\<close>

text \<open>
  The zeros are not always on the left, and not every identifier becomes a string: the
  boundary identifier \<^verbatim>\<open>-1\<close> becomes \<^verbatim>\<open>-0001\<close>, where padding on the left gives
  \<^verbatim>\<open>000-1\<close>, and a missing attribute identifier stays missing.
\<close>

theorem normalization_counterexample:
  "fst (run signed_state) = None \<and>
   getitem ''GEOID'' (counties (snd (run signed_state))) = Inr [Str ''-0001''] \<and>
   replicate (5 - length ''-1'') CHR ''0'' @ ''-1'' = ''000-1'' \<and>
   getitem ''GEOID'' (csv_data (snd (run signed_state))) = Inr [NaN]"
  by code_simp

lemma attribute_normalized:
  "(\<exists>t. as_str_dtype c = Str t \<and> str_zfill w (as_str_dtype c) = Str (zfill w t)) \<or>
   (isna c \<and> str_zfill w (as_str_dtype c) = NaN)"
  by (cases c) simp_all

text \<open>
  Claim C3, amended. Normalization replaces the identifier column of both collections.
  A boundary identifier is converted to its string form and zero-filled to width 5. An
  attribute identifier, read as text, is zero-filled to width 5; a missing one stays
  missing. Zero-filling a string of 5 or more characters leaves it unchanged (no
  truncation); a shorter string gets '0' characters until it has exactly 5 characters,
  on the left, or right after its first character when that is a sign '+' or '-'.
\<close>

theorem normalization:
  assumes "run s = (None, s')"
  shows "(\<exists>h b kl lk. files s geojson_path = Some (Table h b) \<and>
            col_index ''GEOID'' h = Some kl \<and>
            getitem ''GEOID'' (counties s') = Inr lk \<and> length lk = length b \<and>
            (\<forall>n<length b. \<exists>t. astype_str (cell_at kl (b ! n)) = Str t \<and>
               lk ! n = Str (zfill 5 t))) \<and>
         (\<exists>h b kr rk. files s csv_path = Some (Table h b) \<and>
            col_index ''GEOID'' h = Some kr \<and>
            getitem ''GEOID'' (csv_data s') = Inr rk \<and> length rk = length b \<and>
            (\<forall>n<length b.
               (\<exists>t. as_str_dtype (cell_at kr (b ! n)) = Str t \<and> rk ! n = Str (zfill 5 t)) \<or>
               (isna (cell_at kr (b ! n)) \<and> rk ! n = NaN))) \<and>
         (\<forall>t. length (zfill 5 t) = max 5 (length t)) \<and>
         (\<forall>t. 5 \<le> length t \<longrightarrow> zfill 5 t = t) \<and>
         (\<forall>t. length t < 5 \<longrightarrow> (t = [] \<or> (hd t \<noteq> CHR ''+'' \<and> hd t \<noteq> CHR ''-'')) \<longrightarrow>
              zfill 5 t = replicate (5 - length t) CHR ''0'' @ t) \<and>
         (\<forall>c u. length (c # u) < 5 \<longrightarrow> (c = CHR ''+'' \<or> c = CHR ''-'') \<longrightarrow>
              zfill 5 (c # u) = c # replicate (5 - length (c # u)) CHR ''0'' @ u)"
proof -
  from run_ok_counties [OF assms] obtain h b kl where
    hb: "files s geojson_path = Some (Table h b)" and
    kl: "col_index ''GEOID'' h = Some kl" and
    lk: "getitem ''GEOID'' (counties s') =
           Inr (map (\<lambda>r. str_zfill 5 (astype_str (cell_at kl r))) b)"
    by blast
  have left: "\<exists>t. astype_str (cell_at kl (b ! n)) = Str t \<and>
      map (\<lambda>r. str_zfill 5 (astype_str (cell_at kl r))) b ! n = Str (zfill 5 t)"
    if "n < length b" for n
    using that normalized_not_missing [of 5 "cell_at kl (b ! n)"] by auto
  from run_ok_csv [OF assms] obtain h' b' kr where
    hb': "files s csv_path = Some (Table h' b')" and
    kr: "col_index ''GEOID'' h' = Some kr" and
    rk: "getitem ''GEOID'' (csv_data s') =
           Inr (map (\<lambda>r. str_zfill 5 (as_str_dtype (cell_at kr r))) b')"
    by blast
  have right: "(\<exists>t. as_str_dtype (cell_at kr (b' ! n)) = Str t \<and>
        map (\<lambda>r. str_zfill 5 (as_str_dtype (cell_at kr r))) b' ! n = Str (zfill 5 t)) \<or>
      (isna (cell_at kr (b' ! n)) \<and>
        map (\<lambda>r. str_zfill 5 (as_str_dtype (cell_at kr r))) b' ! n = NaN)"
    if "n < length b'" for n
    using that attribute_normalized [of "cell_at kr (b' ! n)" 5] by auto
  have A: "\<exists>h b kl lk. files s geojson_path = Some (Table h b) \<and>
            col_index ''GEOID'' h = Some kl \<and>
            getitem ''GEOID'' (counties s') = Inr lk \<and> length lk = length b \<and>
            (\<forall>n<length b. \<exists>t. astype_str (cell_at kl (b ! n)) = Str t \<and>
               lk ! n = Str (zfill 5 t))"
  proof (intro exI conjI)
    show "files s geojson_path = Some (Table h b)" by (rule hb)
    show "col_index ''GEOID'' h = Some kl" by (rule kl)
    show "getitem ''GEOID'' (counties s') =
            Inr (map (\<lambda>r. str_zfill 5 (astype_str (cell_at kl r))) b)" by (rule lk)
    show "length (map (\<lambda>r. str_zfill 5 (astype_str (cell_at kl r))) b) = length b" by simp
    show "\<forall>n<length b. \<exists>t. astype_str (cell_at kl (b ! n)) = Str t \<and>
            map (\<lambda>r. str_zfill 5 (astype_str (cell_at kl r))) b ! n = Str (zfill 5 t)"
      using left by blast
  qed
  have B: "\<exists>h b kr rk. files s csv_path = Some (Table h b) \<and>
            col_index ''GEOID'' h = Some kr \<and>
            getitem ''GEOID'' (csv_data s') = Inr rk \<and> length rk = length b \<and>
            (\<forall>n<length b.
               (\<exists>t. as_str_dtype (cell_at kr (b ! n)) = Str t \<and> rk ! n = Str (zfill 5 t)) \<or>
               (isna (cell_at kr (b ! n)) \<and> rk ! n = NaN))"
  proof (intro exI conjI)
    show "files s csv_path = Some (Table h' b')" by (rule hb')
    show "col_index ''GEOID'' h' = Some kr" by (rule kr)
    show "getitem ''GEOID'' (csv_data s') =
            Inr (map (\<lambda>r. str_zfill 5 (as_str_dtype (cell_at kr r))) b')" by (rule rk)
    show "length (map (\<lambda>r. str_zfill 5 (as_str_dtype (cell_at kr r))) b') = length b'" by simp
    show "\<forall>n<length b'.
            (\<exists>t. as_str_dtype (cell_at kr (b' ! n)) = Str t \<and>
               map (\<lambda>r. str_zfill 5 (as_str_dtype (cell_at kr r))) b' ! n = Str (zfill 5 t)) \<or>
            (isna (cell_at kr (b' ! n)) \<and>
               map (\<lambda>r. str_zfill 5 (as_str_dtype (cell_at kr r))) b' ! n = NaN)"
      using right by blast
  qed
  have C: "\<forall>t. length (zfill 5 t) = max 5 (length t)"
    by (simp add: zfill_length)
  have D: "\<forall>t. 5 \<le> length t \<longrightarrow> zfill 5 t = t"
    by (simp add: zfill_long)
  have E: "\<forall>t. length t < 5 \<longrightarrow> (t = [] \<or> (hd t \<noteq> CHR ''+'' \<and> hd t \<noteq> CHR ''-'')) \<longrightarrow>
              zfill 5 t = replicate (5 - length t) CHR ''0'' @ t"
    using zfill_plain [of _ 5] by blast
  have F: "\<forall>c u. length (c # u) < 5 \<longrightarrow> (c = CHR ''+'' \<or> c = CHR ''-'') \<longrightarrow>
              zfill 5 (c # u) = c # replicate (5 - length (c # u)) CHR ''0'' @ u"
    using zfill_signed [of _ _ 5] by blast
  from A B C D E F show ?thesis by (intro conjI)
qed

theorem normalization_witness:
  "run signed_state = (None, snd (run signed_state)) \<and>
   (\<exists>h b kl lk. files signed_state geojson_path = Some (Table h b) \<and>
            col_index ''GEOID'' h = Some kl \<and>
            getitem ''GEOID'' (counties (snd (run signed_state))) = Inr lk \<and>
            length lk = length b \<and>
            (\<forall>n<length b. \<exists>t. astype_str (cell_at kl (b ! n)) = Str t \<and>
               lk ! n = Str (zfill 5 t))) \<and>
   zfill 5 ''-1'' = CHR ''-'' # replicate (5 - length ''-1'') CHR ''0'' @ ''1'' \<and>
   zfill 5 ''6001'' = replicate (5 - length ''6001'') CHR ''0'' @ ''6001'' \<and>
   zfill 5 ''123456'' = ''123456''"
proof -
  have "fst (run signed_state) = None" by code_simp
  then have ok: "run signed_state = (None, snd (run signed_state))"
    by (simp add: prod_eq_iff)
  note n = normalization [OF ok]
  from n have a: "\<exists>h b kl lk. files signed_state geojson_path = Some (Table h b) \<and>
            col_index ''GEOID'' h = Some kl \<and>
            getitem ''GEOID'' (counties (snd (run signed_state))) = Inr lk \<and>
            length lk = length b \<and>
            (\<forall>n<length b. \<exists>t. astype_str (cell_at kl (b ! n)) = Str t \<and>
               lk ! n = Str (zfill 5 t))" by (rule conjunct1)
  from n have long: "\<forall>t. 5 \<le> length t \<longrightarrow> zfill 5 t = t"
    by (elim conjE)
  from n have plain: "\<forall>t. length t < 5 \<longrightarrow>
      (t = [] \<or> (hd t \<noteq> CHR ''+'' \<and> hd t \<noteq> CHR ''-'')) \<longrightarrow>
      zfill 5 t = replicate (5 - length t) CHR ''0'' @ t" by (elim conjE)
  from n have signed: "\<forall>c u. length (c # u) < 5 \<longrightarrow> (c = CHR ''+'' \<or> c = CHR ''-'') \<longrightarrow>
      zfill 5 (c # u) = c # replicate (5 - length (c # u)) CHR ''0'' @ u" by (elim conjE)
  have b: "zfill 5 ''-1'' = CHR ''-'' # replicate (5 - length ''-1'') CHR ''0'' @ ''1''"
    using signed [rule_format, of "CHR ''-''" "''1''"] by simp
  have c: "zfill 5 ''6001'' = replicate (5 - length ''6001'') CHR ''0'' @ ''6001''"
    using plain [rule_format, of "''6001''"] by simp
  have d: "zfill 5 ''123456'' = ''123456''"
    using long [rule_format, of "''123456''"] by simp
  from ok a b c d show ?thesis by (intro conjI)
qed

section \<open>The missing-data report\<close>

lemma mask_filter: "map fst (filter snd (zip xs (map P xs))) = filter P xs"
  by (induction xs) auto

lemma mask_select_rows: "rows (mask_select f (map P (rows f))) = filter P (rows f)"
  by (simp add: mask_select_def mask_filter)

lemma mask_select_columns: "columns (mask_select f m) = columns f"
  by (simp add: mask_select_def)

lemma invert_Inr:
  "invert m = Inr bs \<longleftrightarrow> list_all (\<lambda>b. b \<noteq> None) m \<and> bs = map (\<lambda>b. \<not> the b) m"
  by (auto simp: invert_def)

lemma as_mask_Inr:
  "as_mask m = Inr bs \<longleftrightarrow> list_all (\<lambda>b. b \<noteq> None) m \<and> bs = map the m"
  by (auto simp: as_mask_def)

lemma run_ok_report:
  assumes "run s = (None, s')"
  shows "\<exists>k. col_index ''GEOID'' (columns (merged_data s')) = Some k \<and>
           missing_data s' = mask_select (merged_data s') (isna_any (merged_data s')) \<and>
           rows (missing_data s') = filter (\<lambda>r. list_ex isna (snd r)) (rows (merged_data s')) \<and>
           (\<forall>r\<in>set (rows (missing_data s')). str_startswith ''72'' (cell_at k (snd r)) \<noteq> None) \<and>
           columns (missing_mainland s') = columns (merged_data s') \<and>
           columns (missing_non_mainland s') = columns (merged_data s') \<and>
           rows (missing_mainland s') =
             filter (\<lambda>r. \<not> the (str_startswith ''72'' (cell_at k (snd r)))) (rows (missing_data s')) \<and>
           rows (missing_non_mainland s') =
             filter (\<lambda>r. the (str_startswith ''72'' (cell_at k (snd r)))) (rows (missing_data s'))"
proof -
  from assms obtain mcol mm mn where
    md: "missing_data s' = mask_select (merged_data s') (isna_any (merged_data s'))" and
    mcol: "getitem ''GEOID'' (missing_data s') = Inr mcol" and
    mm: "invert (map (str_startswith ''72'') mcol) = Inr mm" and
    mn: "as_mask (map (str_startswith ''72'') mcol) = Inr mn" and
    ml: "missing_mainland s' = mask_select (missing_data s') mm" and
    mnl: "missing_non_mainland s' = mask_select (missing_data s') mn"
    by (auto simp: run_ok_iff)
  from mcol obtain k where
    k: "col_index ''GEOID'' (columns (missing_data s')) = Some k" and
    mceq: "mcol = map (\<lambda>r. cell_at k (snd r)) (rows (missing_data s'))"
    by (auto simp: getitem_Inr)
  have k': "col_index ''GEOID'' (columns (merged_data s')) = Some k"
    using k by (simp add: md mask_select_columns)
  have rows_md: "rows (missing_data s') =
      filter (\<lambda>r. list_ex isna (snd r)) (rows (merged_data s'))"
    unfolding md isna_any_def by (rule mask_select_rows)
  have all: "\<forall>r\<in>set (rows (missing_data s')). str_startswith ''72'' (cell_at k (snd r)) \<noteq> None"
    using mm by (simp add: invert_Inr mceq list_all_iff)
  have mmeq: "mm = map (\<lambda>r. \<not> the (str_startswith ''72'' (cell_at k (snd r)))) (rows (missing_data s'))"
    using mm by (simp add: invert_Inr mceq comp_def)
  have mneq: "mn = map (\<lambda>r. the (str_startswith ''72'' (cell_at k (snd r)))) (rows (missing_data s'))"
    using mn by (simp add: as_mask_Inr mceq comp_def)
  have r1: "rows (missing_mainland s') =
      filter (\<lambda>r. \<not> the (str_startswith ''72'' (cell_at k (snd r)))) (rows (missing_data s'))"
    unfolding ml mmeq by (rule mask_select_rows)
  have r2: "rows (missing_non_mainland s') =
      filter (\<lambda>r. the (str_startswith ''72'' (cell_at k (snd r)))) (rows (missing_data s'))"
    unfolding mnl mneq by (rule mask_select_rows)
  have c1: "columns (missing_mainland s') = columns (merged_data s')"
    by (simp add: ml md mask_select_columns)
  have c2: "columns (missing_non_mainland s') = columns (merged_data s')"
    by (simp add: mnl md mask_select_columns)
  from k' md rows_md all c1 c2 r1 r2 show ?thesis by blast
qed

lemma run_ok_labels:
  assumes "run s = (None, s')"
  shows "map fst (rows (merged_data s')) = [0..<length (rows (merged_data s'))]"
proof -
  from merged_sources [OF run_ok_merge [OF assms]] obtain ix :: "(nat \<times> nat option) list" where
    ix: "map fst (rows (merged_data s')) = [0..<length ix]" by blast
  from arg_cong [OF ix, of length] have "length ix = length (rows (merged_data s'))" by simp
  with ix show ?thesis by simp
qed

text \<open>
  Claim C5. The reporter flags exactly the merged records with a missing value in some
  column, whichever it is, and splits the flagged records by whether the identifier
  starts with \<^verbatim>\<open>72\<close>: the records that do are the non-mainland group, all others the
  mainland group. The records of the merged frame carry distinct labels, no record is in
  both groups, and the two groups together hold every flagged record.
\<close>

theorem report_partition:
  assumes "run s = (None, s')"
  shows "\<exists>k. col_index ''GEOID'' (columns (merged_data s')) = Some k \<and>
           rows (missing_data s') =
             filter (\<lambda>r. list_ex isna (snd r)) (rows (merged_data s')) \<and>
           rows (missing_non_mainland s') =
             filter (\<lambda>r. \<exists>t. cell_at k (snd r) = Str t \<and> startswith ''72'' t)
               (rows (missing_data s')) \<and>
           rows (missing_mainland s') =
             filter (\<lambda>r. \<not> (\<exists>t. cell_at k (snd r) = Str t \<and> startswith ''72'' t))
               (rows (missing_data s')) \<and>
           distinct (rows (merged_data s')) \<and>
           distinct (map fst (rows (merged_data s'))) \<and>
           set (rows (missing_mainland s')) \<inter> set (rows (missing_non_mainland s')) = {} \<and>
           set (rows (missing_mainland s')) \<union> set (rows (missing_non_mainland s')) =
             set (rows (missing_data s')) \<and>
           length (rows (missing_mainland s')) + length (rows (missing_non_mainland s')) =
             length (rows (missing_data s'))"
proof -
  from run_ok_report [OF assms] obtain k where
    k: "col_index ''GEOID'' (columns (merged_data s')) = Some k" and
    md: "rows (missing_data s') = filter (\<lambda>r. list_ex isna (snd r)) (rows (merged_data s'))" and
    all: "\<forall>r\<in>set (rows (missing_data s')). str_startswith ''72'' (cell_at k (snd r)) \<noteq> None" and
    r1: "rows (missing_mainland s') =
      filter (\<lambda>r. \<not> the (str_startswith ''72'' (cell_at k (snd r)))) (rows (missing_data s'))" and
    r2: "rows (missing_non_mainland s') =
      filter (\<lambda>r. the (str_startswith ''72'' (cell_at k (snd r)))) (rows (missing_data s'))"
    by blast
  let ?P = "\<lambda>r. \<exists>t. cell_at k (snd r) = Str t \<and> startswith ''72'' t"
  have eqP: "the (str_startswith ''72'' (cell_at k (snd r))) = ?P r"
    if "r \<in> set (rows (missing_data s'))" for r
  proof -
    from all that have "str_startswith ''72'' (cell_at k (snd r)) \<noteq> None" by blast
    then show ?thesis by (cases "cell_at k (snd r)") auto
  qed
  have n: "rows (missing_non_mainland s') = filter ?P (rows (missing_data s'))"
    unfolding r2 by (rule filter_cong) (simp_all add: eqP)
  have m: "rows (missing_mainland s') = filter (\<lambda>r. \<not> ?P r) (rows (missing_data s'))"
    unfolding r1 by (rule filter_cong) (simp_all add: eqP)
  have dl: "distinct (map fst (rows (merged_data s')))"
    by (simp add: run_ok_labels [OF assms])
  then have d: "distinct (rows (merged_data s'))" by (simp add: distinct_map)
  have disj: "set (rows (missing_mainland s')) \<inter> set (rows (missing_non_mainland s')) = {}"
    unfolding m n by auto
  have un: "set (rows (missing_mainland s')) \<union> set (rows (missing_non_mainland s')) =
              set (rows (missing_data s'))"
    unfolding m n by auto
  have len: "length (rows (missing_mainland s')) + length (rows (missing_non_mainland s')) =
               length (rows (missing_data s'))"
    unfolding m n using sum_length_filter_compl [of ?P "rows (missing_data s')"] by simp
  from k md n m d dl disj un len show ?thesis by blast
qed

theorem report_partition_witness:
  "run example_state = (None, snd (run example_state)) \<and>
   (\<exists>k. col_index ''GEOID'' (columns (merged_data (snd (run example_state)))) = Some k \<and>
      rows (missing_data (snd (run example_state))) =
        filter (\<lambda>r. list_ex isna (snd r)) (rows (merged_data (snd (run example_state)))) \<and>
      rows (missing_non_mainland (snd (run example_state))) =
        filter (\<lambda>r. \<exists>t. cell_at k (snd r) = Str t \<and> startswith ''72'' t)
          (rows (missing_data (snd (run example_state)))) \<and>
      rows (missing_mainland (snd (run example_state))) =
        filter (\<lambda>r. \<not> (\<exists>t. cell_at k (snd r) = Str t \<and> startswith ''72'' t))
          (rows (missing_data (snd (run example_state)))) \<and>
      distinct (rows (merged_data (snd (run example_state)))) \<and>
      distinct (map fst (rows (merged_data (snd (run example_state))))) \<and>
      set (rows (missing_mainland (snd (run example_state)))) \<inter>
        set (rows (missing_non_mainland (snd (run example_state)))) = {} \<and>
      set (rows (missing_mainland (snd (run example_state)))) \<union>
        set (rows (missing_non_mainland (snd (run example_state)))) =
        set (rows (missing_data (snd (run example_state)))) \<and>
      length (rows (missing_mainland (snd (run example_state)))) +
        length (rows (missing_non_mainland (snd (run example_state)))) =
        length (rows (missing_data (snd (run example_state))))) \<and>
   rows (missing_mainland (snd (run example_state))) =
     [(2, [Str ''01001'', Str ''Autauga'', Geom ''P3'', NaN])] \<and>
   rows (missing_non_mainland (snd (run example_state))) =
     [(1, [Str ''72001'', Str ''Adjuntas'', Geom ''P2'', NaN])]"
proof -
  have "fst (run example_state) = None" by code_simp
  then have ok: "run example_state = (None, snd (run example_state))"
    by (simp add: prod_eq_iff)
  have a: "rows (missing_mainland (snd (run example_state))) =
     [(2, [Str ''01001'', Str ''Autauga'', Geom ''P3'', NaN])]" by code_simp
  have b: "rows (missing_non_mainland (snd (run example_state))) =
     [(1, [Str ''72001'', Str ''Adjuntas'', Geom ''P2'', NaN])]" by code_simp
  from report_partition [OF ok] ok a b show ?thesis by (intro conjI)
qed

section \<open>The prefix test and short identifiers\<close>

text \<open>
  A short identifier does not always begin with \<^verbatim>\<open>0\<close> once normalized: \<^verbatim>\<open>-1\<close>
  becomes \<^verbatim>\<open>-0001\<close>.
\<close>

theorem short_identifier_counterexample:
  "fst (run signed_state) = None \<and>
   files signed_state geojson_path =
     Some (Table [''GEOID'', ''NAME'', ''geometry'']
        [[Str ''-1'', Str ''Nowhere'', Geom ''P1'']]) \<and>
   length ''-1'' < 5 \<and>
   getitem ''GEOID'' (merged_data (snd (run signed_state))) = Inr [Str ''-0001''] \<and>
   hd ''-0001'' \<noteq> CHR ''0''"
  by code_simp

lemma run_ok_key_cells:
  assumes "run s = (None, s')" and "getitem ''GEOID'' (counties s') = Inr lk"
    and "col_index ''GEOID'' (columns (merged_data s')) = Some k"
    and "r \<in> set (rows (merged_data s'))"
  shows "cell_at k (snd r) \<in> set lk"
proof -
  from run_ok_csv [OF assms(1)] obtain rk where
    rk: "getitem ''GEOID'' (csv_data s') = Inr rk" by blast
  from run_ok_merged_keys [OF assms(1,2) rk] assms(3) have
    "map (\<lambda>r. cell_at k (snd r)) (rows (merged_data s')) =
       map (\<lambda>p. lk ! fst p) (left_join_indexers lk rk)"
    by (simp add: getitem_def)
  moreover from assms(4) have
    "cell_at k (snd r) \<in> set (map (\<lambda>r. cell_at k (snd r)) (rows (merged_data s')))"
    by simp
  ultimately have "cell_at k (snd r) \<in> set (map (\<lambda>p. lk ! fst p) (left_join_indexers lk rk))"
    by simp
  then obtain p where "p \<in> set (left_join_indexers lk rk)" "cell_at k (snd r) = lk ! fst p"
    by auto
  with indexers_fst_bound [of p lk rk] show ?thesis by simp
qed

lemma non_mainland_rows:
  assumes "run s = (None, s')"
    and "col_index ''GEOID'' (columns (merged_data s')) = Some k"
    and "r \<in> set (rows (missing_non_mainland s'))"
  shows "r \<in> set (rows (merged_data s')) \<and>
         (\<exists>u. cell_at k (snd r) = Str u \<and> startswith ''72'' u)"
proof -
  from run_ok_report [OF assms(1)] assms(2) have
    md: "rows (missing_data s') =
           filter (\<lambda>r. list_ex isna (snd r)) (rows (merged_data s'))" and
    nm: "rows (missing_non_mainland s') =
           filter (\<lambda>r. the (str_startswith ''72'' (cell_at k (snd r))))
             (rows (missing_data s'))" and
    all: "\<forall>r\<in>set (rows (missing_data s')).
            str_startswith ''72'' (cell_at k (snd r)) \<noteq> None"
    by auto
  from assms(3) have r: "r \<in> set (rows (missing_data s'))"
    "the (str_startswith ''72'' (cell_at k (snd r)))" by (simp_all add: nm)
  from all r(1) have "str_startswith ''72'' (cell_at k (snd r)) \<noteq> None" by blast
  with r(2) have "\<exists>u. cell_at k (snd r) = Str u \<and> startswith ''72'' u"
    by (cases "cell_at k (snd r)") auto
  with r(1) show ?thesis by (simp add: md)
qed

text \<open>
  Claim C10, amended. The prefix test is applied to the normalized identifier. Every
  record of the non-mainland group carries the zero-filled string form of a boundary
  identifier; that string form has at least 5 characters and itself starts with
  \<^verbatim>\<open>72\<close>, and no string form shorter than 5 characters normalizes to the identifier
  of a record of that group. The normalized form of a string shorter than 5 characters
  begins with \<^verbatim>\<open>0\<close>, or with the sign the string begins with, and so never starts
  with \<^verbatim>\<open>72\<close>, even if the string does.
\<close>

theorem short_identifier_never_non_mainland:
  assumes "run s = (None, s')"
  shows "(\<exists>h b kl k. files s geojson_path = Some (Table h b) \<and>
            col_index ''GEOID'' h = Some kl \<and>
            col_index ''GEOID'' (columns (merged_data s')) = Some k \<and>
            (\<forall>r\<in>set (rows (missing_non_mainland s')).
               (\<exists>r0\<in>set b. \<exists>t. astype_str (cell_at kl r0) = Str t \<and>
                   cell_at k (snd r) = Str (zfill 5 t) \<and> 5 \<le> length t \<and>
                   startswith ''72'' t) \<and>
               (\<forall>t. length t < 5 \<longrightarrow> cell_at k (snd r) \<noteq> Str (zfill 5 t)))) \<and>
         (\<forall>t. length t < 5 \<longrightarrow>
            \<not> startswith ''72'' (zfill 5 t) \<and>
            (hd (zfill 5 t) = CHR ''0'' \<or>
             (t \<noteq> [] \<and> hd (zfill 5 t) = hd t \<and> (hd t = CHR ''+'' \<or> hd t = CHR ''-''))))"
proof -
  from run_ok_counties [OF assms] obtain h b kl where
    hb: "files s geojson_path = Some (Table h b)" and
    kl: "col_index ''GEOID'' h = Some kl" and
    lk: "getitem ''GEOID'' (counties s') =
           Inr (map (\<lambda>r. str_zfill 5 (astype_str (cell_at kl r))) b)"
    by blast
  from run_ok_report [OF assms] obtain k where
    k: "col_index ''GEOID'' (columns (merged_data s')) = Some k" by blast
  have group: "(\<exists>r0\<in>set b. \<exists>t. astype_str (cell_at kl r0) = Str t \<and>
                   cell_at k (snd r) = Str (zfill 5 t) \<and> 5 \<le> length t \<and>
                   startswith ''72'' t) \<and>
               (\<forall>t. length t < 5 \<longrightarrow> cell_at k (snd r) \<noteq> Str (zfill 5 t))"
    if r: "r \<in> set (rows (missing_non_mainland s'))" for r
  proof -
    from non_mainland_rows [OF assms k r] obtain u where
      u: "cell_at k (snd r) = Str u" "startswith ''72'' u" and
      rm: "r \<in> set (rows (merged_data s'))"
      by blast
    from run_ok_key_cells [OF assms lk k rm] obtain r0 where
      r0: "r0 \<in> set b" "cell_at k (snd r) = str_zfill 5 (astype_str (cell_at kl r0))"
      by auto
    from normalized_not_missing [of 5 "cell_at kl r0"] obtain t where
      t: "astype_str (cell_at kl r0) = Str t"
         "str_zfill 5 (astype_str (cell_at kl r0)) = Str (zfill 5 t)" by blast
    from r0 t u have ut: "u = zfill 5 t" by simp
    have long: "5 \<le> length t"
    proof (rule ccontr)
      assume "\<not> 5 \<le> length t"
      then have "length t < 5" by simp
      from zfill_short_not_72 [OF this] u(2) ut show False by simp
    qed
    then have "zfill 5 t = t" by (rule zfill_long)
    with u ut have "startswith ''72'' t" by simp
    moreover have "cell_at k (snd r) \<noteq> Str (zfill 5 t')" if "length t' < 5" for t'
      using zfill_short_not_72 [OF that] u by auto
    ultimately show ?thesis using r0(1) t(1) u(1) ut long by blast
  qed
  have A: "\<exists>h b kl k. files s geojson_path = Some (Table h b) \<and>
            col_index ''GEOID'' h = Some kl \<and>
            col_index ''GEOID'' (columns (merged_data s')) = Some k \<and>
            (\<forall>r\<in>set (rows (missing_non_mainland s')).
               (\<exists>r0\<in>set b. \<exists>t. astype_str (cell_at kl r0) = Str t \<and>
                   cell_at k (snd r) = Str (zfill 5 t) \<and> 5 \<le> length t \<and>
                   startswith ''72'' t) \<and>
               (\<forall>t. length t < 5 \<longrightarrow> cell_at k (snd r) \<noteq> Str (zfill 5 t)))"
    using hb kl k group by blast
  have B: "\<forall>t. length t < 5 \<longrightarrow>
            \<not> startswith ''72'' (zfill 5 t) \<and>
            (hd (zfill 5 t) = CHR ''0'' \<or>
             (t \<noteq> [] \<and> hd (zfill 5 t) = hd t \<and> (hd t = CHR ''+'' \<or> hd t = CHR ''-'')))"
    using zfill_short_not_72 [of _ 5] zfill_short_head [of _ 5] by blast
  from A B show ?thesis by (rule conjI)
qed

theorem short_identifier_never_non_mainland_witness:
  "run short72_state = (None, snd (run short72_state)) \<and>
   files short72_state geojson_path =
     Some (Table [''GEOID'', ''NAME'', ''geometry'']
        [[Str ''721'', Str ''Somewhere'', Geom ''P1'']]) \<and>
   \<not> startswith ''72'' (zfill 5 ''721'') \<and>
   rows (missing_non_mainland (snd (run short72_state))) = [] \<and>
   rows (missing_mainland (snd (run short72_state))) =
     [(0, [Str ''00721'', Str ''Somewhere'', Geom ''P1'', NaN])]"
proof -
  have "fst (run short72_state) = None" by code_simp
  then have ok: "run short72_state = (None, snd (run short72_state))"
    by (simp add: prod_eq_iff)
  from short_identifier_never_non_mainland [OF ok] have
    "\<forall>t. length t < 5 \<longrightarrow>
            \<not> startswith ''72'' (zfill 5 t) \<and>
            (hd (zfill 5 t) = CHR ''0'' \<or>
             (t \<noteq> [] \<and> hd (zfill 5 t) = hd t \<and> (hd t = CHR ''+'' \<or> hd t = CHR ''-'')))"
    by (rule conjunct2)
  from this [rule_format, of "''721''"] have a: "\<not> startswith ''72'' (zfill 5 ''721'')"
    by simp
  have f: "files short72_state geojson_path =
     Some (Table [''GEOID'', ''NAME'', ''geometry'']
        [[Str ''721'', Str ''Somewhere'', Geom ''P1'']])" by code_simp
  have b: "rows (missing_non_mainland (snd (run short72_state))) = []" by code_simp
  have c: "rows (missing_mainland (snd (run short72_state))) =
     [(0, [Str ''00721'', Str ''Somewhere'', Geom ''P1'', NaN])]" by code_simp
  from ok f a b c show ?thesis by (intro conjI)
qed

section \<open>Statements in sequence\<close>

lemma script_parts: "script = load_and_merge @ report @ write_out"
  by (simp add: script_def load_and_merge_def report_def write_out_def)

lemma exec_append:
  "exec (xs @ ys) s =
     (case exec xs s of (None, t) \<Rightarrow> exec ys t | (Some e, t) \<Rightarrow> (Some e, t))"
  by (induction xs arbitrary: s) (auto split: sum.splits)

lemma exec_abort:
  assumes "exec pre s = (None, t)" and "l t = Inl e"
  shows "exec (pre @ l # post) s = (Some e, t)"
  using assms by (simp add: exec_append)

lemma exec_invariant:
  assumes "\<And>l s t. l \<in> set ls \<Longrightarrow> l s = Inr t \<Longrightarrow> f t = f s"
  shows "f (snd (exec ls s)) = f s"
  using assms
proof (induction ls arbitrary: s)
  case Nil
  then show ?case by simp
next
  case (Cons l ls)
  show ?case
  proof (cases "l s")
    case (Inl e)
    then show ?thesis by simp
  next
    case (Inr t)
    have "f (snd (exec ls t)) = f t"
    proof (rule Cons.IH)
      fix l' s' t' assume "l' \<in> set ls" "l' s' = Inr t'"
      then show "f t' = f s'" using Cons.prems [of l' s' t'] by simp
    qed
    moreover have "f t = f s" using Cons.prems [of l s t] Inr by simp
    ultimately show ?thesis using Inr by simp
  qed
qed

lemma load_and_merge_files:
  assumes "l \<in> set load_and_merge" "l s = Inr t"
  shows "files t = files s"
  using assms by (auto simp: load_and_merge_def line_Inr)

lemma report_frame:
  assumes "l \<in> set report" "l s = Inr t"
  shows "files t = files s" "writable t = writable s" "counties t = counties s"
    "csv_data t = csv_data s" "merged_data t = merged_data s"
  using assms by (auto simp: report_def line_Inr)

lemma abort_keeps_files:
  assumes "fst (run s) \<noteq> None"
  shows "files (snd (run s)) = files s"
proof -
  obtain r u where ex1: "exec load_and_merge s = (r, u)" by (cases "exec load_and_merge s")
  have fu: "files u = files s"
    using exec_invariant [of load_and_merge files s] load_and_merge_files ex1 by auto
  show ?thesis
  proof (cases r)
    case (Some e)
    with ex1 fu show ?thesis by (simp add: run_def script_parts exec_append)
  next
    case None
    obtain r' v where ex2: "exec report u = (r', v)" by (cases "exec report u")
    have fv: "files v = files u"
      using exec_invariant [of report files u] report_frame(1) ex2 by auto
    show ?thesis
    proof (cases r')
      case (Some e)
      with None ex1 ex2 fu fv show ?thesis by (simp add: run_def script_parts exec_append)
    next
      case None': None
      have run: "run s = exec write_out v"
        using None None' ex1 ex2 by (simp add: run_def script_parts exec_append)
      show ?thesis
      proof (cases "line19 v")
        case (Inl e)
        with run fu fv show ?thesis by (simp add: write_out_def)
      next
        case (Inr w)
        with run have "fst (run s) = None" by (simp add: write_out_def line20_def)
        with assms show ?thesis by simp
      qed
    qed
  qed
qed

section \<open>Errors end the run before anything is written\<close>

lemma before_write_frame:
  assumes "l \<in> set (load_and_merge @ report)" "l s = Inr t"
  shows "files t = files s" "writable t = writable s"
  using assms by (auto simp: load_and_merge_def report_def line_Inr)

lemma before_write_files:
  "files (snd (exec (load_and_merge @ report) s)) = files s"
  by (rule exec_invariant) (rule before_write_frame(1))

lemma before_write_writable:
  "writable (snd (exec (load_and_merge @ report) s)) = writable s"
  by (rule exec_invariant) (rule before_write_frame(2))

lemma first_lines_files:
  "files (snd (exec [line8, line9] s)) = files s"
  by (rule exec_invariant) (auto simp: line_Inr)

lemma run_abort:
  assumes "script = pre @ l # post" "exec pre s = (None, t)" "l t = Inl e"
  shows "run s = (Some e, t)"
  unfolding run_def assms(1) using assms(2,3) by (rule exec_abort)

lemma geojson_missing:
  assumes "files s geojson_path = None"
  shows "run s = (Some (FileNotFoundError geojson_path), s)"
proof (rule run_abort [of "[]" line8])
  show "script = [] @ line8 # [line9, line10, line11, line12, line13, line14, line15, line16,
      line17, line19, line20]" by (simp add: script_def)
  show "exec [] s = (None, s)" by simp
  show "line8 s = Inl (FileNotFoundError geojson_path)"
    using assms by (simp add: line8_def read_file_def read_table_def)
qed

lemma geojson_malformed:
  assumes "files s geojson_path = Some Malformed"
  shows "run s = (Some (ParseError geojson_path), s)"
proof (rule run_abort [of "[]" line8])
  show "script = [] @ line8 # [line9, line10, line11, line12, line13, line14, line15, line16,
      line17, line19, line20]" by (simp add: script_def)
  show "exec [] s = (None, s)" by simp
  show "line8 s = Inl (ParseError geojson_path)"
    using assms by (simp add: line8_def read_file_def read_table_def)
qed

lemma csv_missing:
  assumes "exec [line8, line9] s = (None, t)" "files s csv_path = None"
  shows "run s = (Some (FileNotFoundError csv_path), t)"
proof (rule run_abort [of "[line8, line9]" line10])
  show "script = [line8, line9] @ line10 # [line11, line12, line13, line14, line15, line16,
      line17, line19, line20]" by (simp add: script_def)
  show "exec [line8, line9] s = (None, t)" by (rule assms(1))
  have "files t = files s" using first_lines_files [of s] assms(1) by simp
  then show "line10 t = Inl (FileNotFoundError csv_path)"
    using assms(2) by (simp add: line10_def read_csv_def read_table_def)
qed

lemma csv_malformed:
  assumes "exec [line8, line9] s = (None, t)" "files s csv_path = Some Malformed"
  shows "run s = (Some (ParseError csv_path), t)"
proof (rule run_abort [of "[line8, line9]" line10])
  show "script = [line8, line9] @ line10 # [line11, line12, line13, line14, line15, line16,
      line17, line19, line20]" by (simp add: script_def)
  show "exec [line8, line9] s = (None, t)" by (rule assms(1))
  have "files t = files s" using first_lines_files [of s] assms(1) by simp
  then show "line10 t = Inl (ParseError csv_path)"
    using assms(2) by (simp add: line10_def read_csv_def read_table_def)
qed

lemma write_refused:
  assumes "exec (load_and_merge @ report) s = (None, t)" "\<not> writable s output_geojson_path"
  shows "run s = (Some (IOError output_geojson_path), t) \<and> files t = files s"
proof
  have w: "writable t = writable s" using before_write_writable [of s] assms(1) by simp
  show "run s = (Some (IOError output_geojson_path), t)"
  proof (rule run_abort [of "load_and_merge @ report" line19])
    show "script = (load_and_merge @ report) @ line19 # [line20]"
      by (simp add: script_parts write_out_def)
    show "exec (load_and_merge @ report) s = (None, t)" by (rule assms(1))
    show "line19 t = Inl (IOError output_geojson_path)"
      using w assms(2) by (simp add: line19_def to_file_def)
  qed
  show "files t = files s" using before_write_files [of s] assms(1) by simp
qed

lemma run_ok_files:
  assumes "run s = (None, s')"
  shows "files s' = (files s)(output_geojson_path \<mapsto>
           Table (columns (merged_data s')) (map snd (rows (merged_data s'))))"
  using assms by (auto simp: run_ok_iff)

text \<open>
  Claim C7. No statement catches an error. The first statement that raises ends the run
  with that error, in the state it was raised in: no later statement runs. A boundary
  file or an attribute file that is absent or does not parse, and an output path that
  cannot be written, each end the run so. A run that ends with an error leaves the files
  as they were: no output file is produced. The output file is written only by a run
  that completes, after the merge has succeeded, and holds the merged frame.
\<close>

theorem errors_abort_without_output:
  "(fst (run s) \<noteq> None \<longrightarrow> files (snd (run s)) = files s) \<and>
   (\<forall>pre l post t e. script = pre @ l # post \<longrightarrow> exec pre s = (None, t) \<longrightarrow>
      l t = Inl e \<longrightarrow> run s = (Some e, t)) \<and>
   (files s geojson_path = None \<longrightarrow>
      run s = (Some (FileNotFoundError geojson_path), s)) \<and>
   (files s geojson_path = Some Malformed \<longrightarrow>
      run s = (Some (ParseError geojson_path), s)) \<and>
   (\<forall>t. exec [line8, line9] s = (None, t) \<longrightarrow> files s csv_path = None \<longrightarrow>
      run s = (Some (FileNotFoundError csv_path), t)) \<and>
   (\<forall>t. exec [line8, line9] s = (None, t) \<longrightarrow> files s csv_path = Some Malformed \<longrightarrow>
      run s = (Some (ParseError csv_path), t)) \<and>
   (\<forall>t. exec (load_and_merge @ report) s = (None, t) \<longrightarrow>
      \<not> writable s output_geojson_path \<longrightarrow>
      run s = (Some (IOError output_geojson_path), t) \<and> files t = files s) \<and>
   (\<forall>s'. run s = (None, s') \<longrightarrow>
      merge (counties s') (csv_data s') ''GEOID'' = Inr (merged_data s') \<and>
      files s' = (files s)(output_geojson_path \<mapsto>
        Table (columns (merged_data s')) (map snd (rows (merged_data s')))))"
proof (intro conjI allI impI)
  assume "fst (run s) \<noteq> None"
  then show "files (snd (run s)) = files s" by (rule abort_keeps_files)
next
  fix pre l post t e
  assume "script = pre @ l # post" "exec pre s = (None, t)" "l t = Inl e"
  then show "run s = (Some e, t)" by (rule run_abort)
next
  assume "files s geojson_path = None"
  then show "run s = (Some (FileNotFoundError geojson_path), s)" by (rule geojson_missing)
next
  assume "files s geojson_path = Some Malformed"
  then show "run s = (Some (ParseError geojson_path), s)" by (rule geojson_malformed)
next
  fix t assume "exec [line8, line9] s = (None, t)" "files s csv_path = None"
  then show "run s = (Some (FileNotFoundError csv_path), t)" by (rule csv_missing)
next
  fix t assume "exec [line8, line9] s = (None, t)" "files s csv_path = Some Malformed"
  then show "run s = (Some (ParseError csv_path), t)" by (rule csv_malformed)
next
  fix t assume a: "exec (load_and_merge @ report) s = (None, t)"
    "\<not> writable s output_geojson_path"
  from write_refused [OF a] show "run s = (Some (IOError output_geojson_path), t)" ..
  from write_refused [OF a] show "files t = files s" ..
next
  fix s' assume a: "run s = (None, s')"
  then show "merge (counties s') (csv_data s') ''GEOID'' = Inr (merged_data s')"
    by (rule run_ok_merge)
  from a show "files s' = (files s)(output_geojson_path \<mapsto>
        Table (columns (merged_data s')) (map snd (rows (merged_data s'))))"
    by (rule run_ok_files)
qed

theorem errors_abort_without_output_witness:
  "fst (run readonly_state) = Some (IOError output_geojson_path) \<and>
   files (snd (run readonly_state)) = files readonly_state \<and>
   files no_files_state geojson_path = None \<and>
   run no_files_state = (Some (FileNotFoundError geojson_path), no_files_state)"
proof -
  have e: "fst (run readonly_state) = Some (IOError output_geojson_path)" by code_simp
  then have ne: "fst (run readonly_state) \<noteq> None" by simp
  have n: "files no_files_state geojson_path = None" by code_simp
  note t1 = errors_abort_without_output [of readonly_state]
  note t2 = errors_abort_without_output [of no_files_state]
  from t1 ne have a: "files (snd (run readonly_state)) = files readonly_state" by blast
  from t2 n have b: "run no_files_state = (Some (FileNotFoundError geojson_path), no_files_state)"
    by blast
  from e a n b show ?thesis by (intro conjI)
qed

section \<open>The report changes nothing, the writer writes everything\<close>

lemma report_keeps:
  "files (snd (exec report t)) = files t \<and>
   writable (snd (exec report t)) = writable t \<and>
   counties (snd (exec report t)) = counties t \<and>
   csv_data (snd (exec report t)) = csv_data t \<and>
   merged_data (snd (exec report t)) = merged_data t"
proof (intro conjI)
  show "files (snd (exec report t)) = files t"
    by (rule exec_invariant) (rule report_frame(1))
  show "writable (snd (exec report t)) = writable t"
    by (rule exec_invariant) (rule report_frame(2))
  show "counties (snd (exec report t)) = counties t"
    by (rule exec_invariant) (rule report_frame(3))
  show "csv_data (snd (exec report t)) = csv_data t"
    by (rule exec_invariant) (rule report_frame(4))
  show "merged_data (snd (exec report t)) = merged_data t"
    by (rule exec_invariant) (rule report_frame(5))
qed

lemma run_ok_stages:
  assumes "run s = (None, s')"
  shows "\<exists>t u. exec load_and_merge s = (None, t) \<and> exec report t = (None, u) \<and>
           exec write_out u = (None, s')"
  using assms unfolding run_def script_parts exec_append
  by (auto split: prod.splits option.splits)

lemma write_out_effect:
  assumes "exec write_out u = (None, s')"
  shows "merged_data s' = merged_data u \<and>
         files s' = (files u)(output_geojson_path \<mapsto>
           Table (columns (merged_data u)) (map snd (rows (merged_data u))))"
  using assms by (auto simp: write_out_def line_Inr split: sum.splits)

text \<open>
  Claim C6. The statements of the report (lines 13 to 17), run from any state and
  whether or not they complete, leave the merged frame, the two loaded frames and the
  files as they were. In a completed run the merged frame is the same before the report,
  after it and at the end; the writer changes the output file only, and writes every
  column and every row of the merged frame, the rows flagged as missing included.
\<close>

theorem report_is_observational:
  "(files (snd (exec report t)) = files t \<and>
    counties (snd (exec report t)) = counties t \<and>
    csv_data (snd (exec report t)) = csv_data t \<and>
    merged_data (snd (exec report t)) = merged_data t) \<and>
   script = load_and_merge @ report @ write_out \<and>
   (\<forall>s'. run s = (None, s') \<longrightarrow>
      (\<exists>t u. exec load_and_merge s = (None, t) \<and> exec report t = (None, u) \<and>
         exec write_out u = (None, s') \<and>
         merged_data u = merged_data t \<and> merged_data s' = merged_data t) \<and>
      files s' = (files s)(output_geojson_path \<mapsto>
        Table (columns (merged_data s')) (map snd (rows (merged_data s')))) \<and>
      set (rows (missing_data s')) \<subseteq> set (rows (merged_data s')) \<and>
      set (map snd (rows (missing_data s'))) \<subseteq> set (map snd (rows (merged_data s'))))"
proof (intro conjI allI impI)
  show "files (snd (exec report t)) = files t" using report_keeps [of t] by simp
  show "counties (snd (exec report t)) = counties t" using report_keeps [of t] by simp
  show "csv_data (snd (exec report t)) = csv_data t" using report_keeps [of t] by simp
  show "merged_data (snd (exec report t)) = merged_data t" using report_keeps [of t] by simp
  show "script = load_and_merge @ report @ write_out" by (rule script_parts)
next
  fix s' assume ok: "run s = (None, s')"
  from run_ok_stages [OF ok] obtain t u where
    st: "exec load_and_merge s = (None, t)" "exec report t = (None, u)"
        "exec write_out u = (None, s')" by blast
  from report_keeps [of t] st(2) have mu: "merged_data u = merged_data t" by simp
  from write_out_effect [OF st(3)] mu have ms: "merged_data s' = merged_data t" by simp
  from st mu ms show "\<exists>t u. exec load_and_merge s = (None, t) \<and> exec report t = (None, u) \<and>
         exec write_out u = (None, s') \<and>
         merged_data u = merged_data t \<and> merged_data s' = merged_data t" by blast
  show "files s' = (files s)(output_geojson_path \<mapsto>
        Table (columns (merged_data s')) (map snd (rows (merged_data s'))))"
    by (rule run_ok_files [OF ok])
  from run_ok_report [OF ok] have
    md: "rows (missing_data s') = filter (\<lambda>r. list_ex isna (snd r)) (rows (merged_data s'))"
    by blast
  show "set (rows (missing_data s')) \<subseteq> set (rows (merged_data s'))"
    unfolding md by auto
  then show "set (map snd (rows (missing_data s'))) \<subseteq> set (map snd (rows (merged_data s')))"
    by auto
qed

theorem report_is_observational_witness:
  "run example_state = (None, snd (run example_state)) \<and>
   files (snd (run example_state)) = (files example_state)(output_geojson_path \<mapsto>
        Table (columns (merged_data (snd (run example_state))))
          (map snd (rows (merged_data (snd (run example_state)))))) \<and>
   files (snd (run example_state)) output_geojson_path =
     Some (Table [''GEOID'', ''NAME'', ''geometry'', ''cases'']
       [[Str ''06001'', Str ''Alameda'', Geom ''P1'', Num 12],
        [Str ''72001'', Str ''Adjuntas'', Geom ''P2'', NaN],
        [Str ''01001'', Str ''Autauga'', Geom ''P3'', NaN]]) \<and>
   map snd (rows (missing_data (snd (run example_state)))) =
       [[Str ''72001'', Str ''Adjuntas'', Geom ''P2'', NaN],
        [Str ''01001'', Str ''Autauga'', Geom ''P3'', NaN]]"
proof -
  have "fst (run example_state) = None" by code_simp
  then have ok: "run example_state = (None, snd (run example_state))"
    by (simp add: prod_eq_iff)
  from report_is_observational [of _ example_state] ok have
    a: "files (snd (run example_state)) = (files example_state)(output_geojson_path \<mapsto>
        Table (columns (merged_data (snd (run example_state))))
          (map snd (rows (merged_data (snd (run example_state))))))"
    by blast
  have b: "files (snd (run example_state)) output_geojson_path =
     Some (Table [''GEOID'', ''NAME'', ''geometry'', ''cases'']
       [[Str ''06001'', Str ''Alameda'', Geom ''P1'', Num 12],
        [Str ''72001'', Str ''Adjuntas'', Geom ''P2'', NaN],
        [Str ''01001'', Str ''Autauga'', Geom ''P3'', NaN]])" by code_simp
  have c: "map snd (rows (missing_data (snd (run example_state)))) =
       [[Str ''72001'', Str ''Adjuntas'', Geom ''P2'', NaN],
        [Str ''01001'', Str ''Autauga'', Geom ''P3'', NaN]]" by code_simp
  from ok a b c show ?thesis by (intro conjI)
qed

section \<open>Determinism\<close>

lemma read_file_cong:
  "fs1 p = fs2 p \<Longrightarrow> read_file fs1 p = read_file fs2 p"
  by (simp add: read_file_def read_table_def)

lemma read_csv_cong:
  "fs1 p = fs2 p \<Longrightarrow> read_csv fs1 p = read_csv fs2 p"
  by (simp add: read_csv_def read_table_def)

lemma paths_distinct:
  "output_geojson_path \<noteq> geojson_path" "output_geojson_path \<noteq> csv_path"
  by (simp_all add: output_geojson_path_def geojson_path_def csv_path_def)

lemma run_same_inputs:
  assumes g: "files s1 geojson_path = files s2 geojson_path"
    and c: "files s1 csv_path = files s2 csv_path"
    and r1: "run s1 = (None, t1)"
    and w: "writable s2 output_geojson_path"
  shows "run s2 = (None,
           t1\<lparr>files := (files s2)(output_geojson_path \<mapsto>
                  Table (columns (merged_data t1)) (map snd (rows (merged_data t1)))),
              writable := writable s2,
              stdout := stdout s2 @ drop (length (stdout s1)) (stdout t1)\<rparr>)"
proof -
  have rf: "read_file (files s2) geojson_path = read_file (files s1) geojson_path"
    by (rule read_file_cong) (simp add: g)
  have rc: "read_csv (files s2) csv_path = read_csv (files s1) csv_path"
    by (rule read_csv_cong) (simp add: c)
  from r1 show ?thesis
    unfolding run_ok_iff rf rc using w by auto
qed


lemma run_ok_writable:
  assumes "run s = (None, s')"
  shows "writable s output_geojson_path \<and> writable s' = writable s \<and>
         (\<exists>evs. stdout s' = stdout s @ evs)"
  using assms by (auto simp: run_ok_iff)

text \<open>
  Claim C8. The run is a function of its state, and its result depends on the two input
  files only. Take two states that hold the same boundary file and the same attribute
  file, whatever else they hold, and let the run from the first complete. If the run
  from the second completes too, both end with the same loaded, merged and report
  frames, the same content of the output file and the same printed report; it does
  complete whenever the output path can be written. In particular a second run, started
  where the first one ended, completes and leaves the same merged frame and the same
  files.
\<close>

theorem run_deterministic:
  assumes "files s1 geojson_path = files s2 geojson_path"
    and "files s1 csv_path = files s2 csv_path"
    and "run s1 = (None, t1)"
  shows "(\<forall>t2. run s2 = (None, t2) \<longrightarrow>
            counties t2 = counties t1 \<and> csv_data t2 = csv_data t1 \<and>
            merged_data t2 = merged_data t1 \<and> missing_data t2 = missing_data t1 \<and>
            missing_mainland t2 = missing_mainland t1 \<and>
            missing_non_mainland t2 = missing_non_mainland t1 \<and>
            files t2 output_geojson_path = files t1 output_geojson_path \<and>
            drop (length (stdout s2)) (stdout t2) = drop (length (stdout s1)) (stdout t1)) \<and>
         (writable s2 output_geojson_path \<longrightarrow> fst (run s2) = None) \<and>
         (\<exists>t3. run t1 = (None, t3) \<and> files t3 = files t1 \<and>
            merged_data t3 = merged_data t1)"
proof (intro conjI allI impI)
  fix t2 assume r2: "run s2 = (None, t2)"
  then have w: "writable s2 output_geojson_path" using run_ok_writable by blast
  from run_same_inputs [OF assms w] r2 have
    t2: "t2 = t1\<lparr>files := (files s2)(output_geojson_path \<mapsto>
                  Table (columns (merged_data t1)) (map snd (rows (merged_data t1)))),
              writable := writable s2,
              stdout := stdout s2 @ drop (length (stdout s1)) (stdout t1)\<rparr>"
    by simp
  show "counties t2 = counties t1" by (simp add: t2)
  show "csv_data t2 = csv_data t1" by (simp add: t2)
  show "merged_data t2 = merged_data t1" by (simp add: t2)
  show "missing_data t2 = missing_data t1" by (simp add: t2)
  show "missing_mainland t2 = missing_mainland t1" by (simp add: t2)
  show "missing_non_mainland t2 = missing_non_mainland t1" by (simp add: t2)
  show "files t2 output_geojson_path = files t1 output_geojson_path"
    by (simp add: t2 run_ok_files [OF assms(3)])
  show "drop (length (stdout s2)) (stdout t2) = drop (length (stdout s1)) (stdout t1)"
    by (simp add: t2)
next
  assume "writable s2 output_geojson_path"
  from run_same_inputs [OF assms this] show "fst (run s2) = None" by simp
next
  have f: "files t1 = (files s1)(output_geojson_path \<mapsto>
             Table (columns (merged_data t1)) (map snd (rows (merged_data t1))))"
    by (rule run_ok_files [OF assms(3)])
  have g: "files s1 geojson_path = files t1 geojson_path"
    using paths_distinct(1) by (simp add: f)
  have c: "files s1 csv_path = files t1 csv_path"
    using paths_distinct(2) by (simp add: f)
  have w: "writable t1 output_geojson_path"
    using run_ok_writable [OF assms(3)] by simp
  have "files t1 output_geojson_path =
          Some (Table (columns (merged_data t1)) (map snd (rows (merged_data t1))))"
    by (subst f) simp
  then have idem: "(files t1)(output_geojson_path \<mapsto>
             Table (columns (merged_data t1)) (map snd (rows (merged_data t1)))) = files t1"
    by (rule fun_upd_idem)
  from run_same_inputs [OF g c assms(3) w] show
    "\<exists>t3. run t1 = (None, t3) \<and> files t3 = files t1 \<and> merged_data t3 = merged_data t1"
    by (simp add: idem)
qed

theorem run_deterministic_witness:
  "files example_state geojson_path = files (snd (run example_state)) geojson_path \<and>
   files example_state csv_path = files (snd (run example_state)) csv_path \<and>
   run example_state = (None, snd (run example_state)) \<and>
   fst (run (snd (run example_state))) = None \<and>
   merged_data (snd (run (snd (run example_state)))) = merged_data (snd (run example_state)) \<and>
   files (snd (run (snd (run example_state)))) output_geojson_path =
     files (snd (run example_state)) output_geojson_path"
proof -
  have "fst (run example_state) = None" by code_simp
  then have ok: "run example_state = (None, snd (run example_state))"
    by (simp add: prod_eq_iff)
  have g: "files example_state geojson_path = files (snd (run example_state)) geojson_path"
    by code_simp
  have c: "files example_state csv_path = files (snd (run example_state)) csv_path"
    by code_simp
  have w: "writable (snd (run example_state)) output_geojson_path" by code_simp
  note d = run_deterministic [OF g c ok]
  from d w have again: "fst (run (snd (run example_state))) = None" by blast
  then have ok2: "run (snd (run example_state)) = (None, snd (run (snd (run example_state))))"
    by (simp add: prod_eq_iff)
  from d ok2 have
    m: "merged_data (snd (run (snd (run example_state)))) = merged_data (snd (run example_state))"
    and f: "files (snd (run (snd (run example_state)))) output_geojson_path =
       files (snd (run example_state)) output_geojson_path"
    by blast+
  from g c ok again m f show ?thesis by (intro conjI)
qed

end
